theory Spec2Isabelle
  imports Complex_Main
begin

section \<open>Strings and errors of the host language\<close>

text \<open>
  Strings are lists of 8-bit characters, read as the code units 0..255 of a JavaScript
  string. \<open>String.prototype.includes\<close> (here \<open>includes_js\<close>) is the contiguous-substring test and
  \<open>toLowerCase\<close> maps the upper-case letters of that range to their lower-case forms.
\<close>

fun startsWith :: "string \<Rightarrow> string \<Rightarrow> bool" where
  "startsWith s [] = True"
| "startsWith [] (c # t) = False"
| "startsWith (a # s) (c # t) = (a = c \<and> startsWith s t)"

fun includes_js :: "string \<Rightarrow> string \<Rightarrow> bool" where
  "includes_js [] t = (t = [])"
| "includes_js (a # s) t = (startsWith (a # s) t \<or> includes_js s t)"

definition toLowerCaseChar :: "char \<Rightarrow> char" where
  "toLowerCaseChar c =
     (let n = (of_char c :: nat)
      in if (65 \<le> n \<and> n \<le> 90) \<or> (192 \<le> n \<and> n \<le> 222 \<and> n \<noteq> 215)
         then char_of (n + 32) else c)"

definition toLowerCase :: "string \<Rightarrow> string" where
  "toLowerCase s = map toLowerCaseChar s"

text \<open>
  A thrown value is an \<open>Error\<close> object with a name and a message, the service's own
  \<open>GeminiApiError\<close> (message and user-friendly message, name \<open>GeminiApiError\<close>), or a
  value that is no \<open>Error\<close> at all, kept as its string form.
\<close>

datatype js_error =
    JsError string string
  | GeminiApiError string string
  | NonError string

fun errorToString :: "string \<Rightarrow> string \<Rightarrow> string" where
  "errorToString name msg =
     (if name = [] then msg else if msg = [] then name else name @ '': '' @ msg)"

fun toString :: "js_error \<Rightarrow> string" where
  "toString (JsError name msg) = errorToString name msg"
| "toString (GeminiApiError msg userFriendlyMessage) = errorToString ''GeminiApiError'' msg"
| "toString (NonError s) = s"

definition isRateLimitError :: "js_error \<Rightarrow> bool" where
  "isRateLimitError error =
     (let errorMessage = toLowerCase (toString error)
      in includes_js errorMessage ''rate limit'' \<or>
         includes_js errorMessage ''quota'' \<or>
         includes_js errorMessage ''resource_exhausted'')"

section \<open>The key pool (apiKeyManager)\<close>

text \<open>
  The pool is built once when the module is loaded: the environment's key first (when it
  is set and not empty), then the configured keys, empty entries removed. Loading fails
  when nothing is left, so every pool the rest of the program sees is non-empty.
\<close>

definition loadApiKeys :: "string option \<Rightarrow> string list \<Rightarrow> js_error + string list" where
  "loadApiKeys envKey userApiKeys =
     (let apiKeys =
            filter (\<lambda>key. key \<noteq> [])
              ((case envKey of None \<Rightarrow> [] | Some k \<Rightarrow> if k \<noteq> [] then [k] else []) @ userApiKeys)
      in if length apiKeys = 0
         then Inl (JsError ''Error''
                ''No API_KEY is configured. Please set the environment variable or add keys to apiKeyManager.ts'')
         else Inr apiKeys)"

definition getApiKeys :: "string list \<Rightarrow> string list" where
  "getApiKeys apiKeys = apiKeys"

definition getTotalKeys :: "string list \<Rightarrow> nat" where
  "getTotalKeys apiKeys = length apiKeys"

text \<open>
  Reading an array past its end gives \<open>undefined\<close>, here \<open>None\<close>. The cursor
  \<open>currentKeyIndex\<close> is the module's only mutable variable; \<open>getNextKey\<close> takes its
  value \<open>cur\<close> and returns the new one beside the result. The module starts it at 0. With
  an empty pool the source's remainder is not a number; loading has excluded that pool.
\<close>

definition keyAt :: "string list \<Rightarrow> nat \<Rightarrow> string option" where
  "keyAt apiKeys i = (if i < length apiKeys then Some (apiKeys ! i) else None)"

record key_result =
  key :: "string option"
  index :: nat

definition getNextKey :: "string list \<Rightarrow> nat \<Rightarrow> key_result \<times> nat" where
  "getNextKey apiKeys cur =
     (\<lparr>key = keyAt apiKeys cur, index = cur\<rparr>, (cur + 1) mod length apiKeys)"

text \<open>\<open>nextKeys n\<close> is \<open>n\<close> calls of \<open>getNextKey\<close> one after the other, nothing in between.\<close>

fun nextKeys :: "string list \<Rightarrow> nat \<Rightarrow> nat \<Rightarrow> key_result list \<times> nat" where
  "nextKeys apiKeys 0 cur = ([], cur)"
| "nextKeys apiKeys (Suc n) cur =
     (let (r, c) = getNextKey apiKeys cur;
          (rs, c') = nextKeys apiKeys n c
      in (r # rs, c'))"

section \<open>The resilient executor (geminiApiCall)\<close>

text \<open>
  The client object built for one attempt holds the key it was given. A backend operation
  \<open>apiLogic\<close> takes the client and the state of the outside world and gives back a result
  or the thrown value, with the new state of the world: one operation may answer
  differently each time it is invoked. The executor's state is the key cursor, the world
  and the list of (key, index) pairs the operation has been invoked with so far, in order.
  \<open>attemptLoop\<close> follows one call from its first attempt to its last with no other call
  taking a key in between; \<open>attemptLoopShared\<close> below lets other calls take keys.
\<close>

datatype GoogleGenAI = GoogleGenAI (apiKey: "string option")

record 'w exec_state =
  currentKeyIndex :: nat
  world :: 'w
  attempts :: "key_result list"

definition allKeysExhausted :: js_error where
  "allKeysExhausted =
     GeminiApiError ''All API keys have reached their rate limits.''
       ''All available API keys have reached their daily limit. Please try again tomorrow or add new keys.''"

text \<open>
  The \<open>for\<close> loop over \<open>i < totalKeys\<close>, by the number of iterations still to run; with
  none left it is the code after the loop.
\<close>

fun attemptLoop ::
  "string list \<Rightarrow> (GoogleGenAI \<Rightarrow> 'w \<Rightarrow> (js_error + 'a) \<times> 'w) \<Rightarrow> nat \<Rightarrow> js_error \<Rightarrow>
   'w exec_state \<Rightarrow> (js_error + 'a) \<times> 'w exec_state" where
  "attemptLoop apiKeys apiLogic 0 lastError st =
     (if isRateLimitError lastError then (Inl allKeysExhausted, st) else (Inl lastError, st))"
| "attemptLoop apiKeys apiLogic (Suc n) lastError st =
     (let (r, c) = getNextKey apiKeys (currentKeyIndex st);
          (outcome, w) = apiLogic (GoogleGenAI (key r)) (world st);
          st' = st\<lparr>currentKeyIndex := c, world := w, attempts := attempts st @ [r]\<rparr>
      in case outcome of
           Inr result \<Rightarrow> (Inr result, st')
         | Inl error \<Rightarrow>
             if isRateLimitError error then attemptLoop apiKeys apiLogic n error st'
             else (Inl error, st'))"

definition geminiApiCall ::
  "string list \<Rightarrow> (GoogleGenAI \<Rightarrow> 'w \<Rightarrow> (js_error + 'a) \<times> 'w) \<Rightarrow>
   'w exec_state \<Rightarrow> (js_error + 'a) \<times> 'w exec_state" where
  "geminiApiCall apiKeys apiLogic st =
     attemptLoop apiKeys apiLogic (getTotalKeys apiKeys)
       (JsError ''Error'' ''No API keys are available or all have failed.'') st"

text \<open>
  The cursor is one variable of the module, shared by every call of the executor. While an
  attempt is awaited, other calls of the executor may run and take keys from it.
  \<open>others\<close> lists, attempt by attempt, how many calls of \<open>getNextKey\<close> other callers
  make during the await of that attempt (none once the list is used up).
  \<open>attemptLoopShared\<close> is the loop of \<open>geminiApiCall\<close> with those calls in between;
  \<open>attemptLoop\<close> is the case in which no other caller takes a key.
\<close>

fun attemptLoopShared ::
  "string list \<Rightarrow> (GoogleGenAI \<Rightarrow> 'w \<Rightarrow> (js_error + 'a) \<times> 'w) \<Rightarrow> nat list \<Rightarrow> nat \<Rightarrow>
   js_error \<Rightarrow> 'w exec_state \<Rightarrow> (js_error + 'a) \<times> 'w exec_state" where
  "attemptLoopShared apiKeys apiLogic others 0 lastError st =
     (if isRateLimitError lastError then (Inl allKeysExhausted, st) else (Inl lastError, st))"
| "attemptLoopShared apiKeys apiLogic others (Suc n) lastError st =
     (let (r, c) = getNextKey apiKeys (currentKeyIndex st);
          (outcome, w) = apiLogic (GoogleGenAI (key r)) (world st);
          taken = (case others of [] \<Rightarrow> 0 | k # ks \<Rightarrow> k);
          later = (case others of [] \<Rightarrow> [] | k # ks \<Rightarrow> ks);
          st' = st\<lparr>currentKeyIndex := snd (nextKeys apiKeys taken c), world := w,
                   attempts := attempts st @ [r]\<rparr>
      in case outcome of
           Inr result \<Rightarrow> (Inr result, st')
         | Inl error \<Rightarrow>
             if isRateLimitError error then attemptLoopShared apiKeys apiLogic later n error st'
             else (Inl error, st'))"

definition geminiApiCallShared ::
  "string list \<Rightarrow> (GoogleGenAI \<Rightarrow> 'w \<Rightarrow> (js_error + 'a) \<times> 'w) \<Rightarrow> nat list \<Rightarrow>
   'w exec_state \<Rightarrow> (js_error + 'a) \<times> 'w exec_state" where
  "geminiApiCallShared apiKeys apiLogic others st =
     attemptLoopShared apiKeys apiLogic others (getTotalKeys apiKeys)
       (JsError ''Error'' ''No API keys are available or all have failed.'') st"

section \<open>The placeholder image and generatePanelImage\<close>

definition base64Alphabet :: string where
  "base64Alphabet = ''ABCDEFGHIJKLMNOPQRSTUVWXYZabcdefghijklmnopqrstuvwxyz0123456789+/''"

definition b64 :: "nat \<Rightarrow> char" where
  "b64 n = base64Alphabet ! (n mod 64)"

fun btoa :: "string \<Rightarrow> string" where
  "btoa [] = []"
| "btoa [a] =
     (let x = (of_char a :: nat)
      in [b64 (x div 4), b64 ((x mod 4) * 16), CHR ''='', CHR ''=''])"
| "btoa [a, b] =
     (let x = (of_char a :: nat); y = (of_char b :: nat)
      in [b64 (x div 4), b64 ((x mod 4) * 16 + y div 16), b64 ((y mod 16) * 4), CHR ''=''])"
| "btoa (a # b # c # s) =
     (let x = (of_char a :: nat); y = (of_char b :: nat); z = (of_char c :: nat)
      in [b64 (x div 4), b64 ((x mod 4) * 16 + y div 16),
          b64 ((y mod 16) * 4 + z div 64), b64 (z mod 64)] @ btoa s)"

definition newline :: string where
  "newline = [CHR 0x0A]"

definition createPlaceholderSvgDataUrl :: "string \<Rightarrow> string" where
  "createPlaceholderSvgDataUrl txt =
     (let svg =
        newline @
        ''    <svg width=\"512\" height=\"512\" viewBox=\"0 0 512 512\" xmlns=\"http://www.w3.org/2000/svg\" style=\"background-color:#4A5568;\">'' @ newline @
        ''      <style>'' @ newline @
        ''        .title { fill: #FBBF24; font-size: 32px; font-family: 'Bangers', cursive, sans-serif; text-anchor: middle; }'' @ newline @
        ''        .text { fill: #E2E8F0; font-size: 24px; font-family: 'Inter', sans-serif; text-anchor: middle; white-space: pre-wrap; }'' @ newline @
        ''      </style>'' @ newline @
        ''      <text x=\"50%\" y=\"45%\" class=\"title\">GENERATION FAILED</text>'' @ newline @
        ''      <text x=\"50%\" y=\"60%\" class=\"text\">'' @ txt @ ''</text>'' @ newline @
        ''    </svg>'' @ newline @
        ''  ''
      in ''data:image/svg+xml;base64,'' @ btoa svg)"

text \<open>
  The answer of the image model is read as \<open>response?.candidates?.[0]?.content?.parts\<close>:
  no list of parts, or a list whose parts carry inline data or not. The operation given to
  the executor sends the request (\<open>generateContent\<close>, already applied to the prompt built
  from the panel) and returns the first inline data as a PNG data URL.
\<close>

type_synonym image_response = "string option list option"

fun firstInlineData :: "string option list \<Rightarrow> string option" where
  "firstInlineData [] = None"
| "firstInlineData (Some d # parts) = Some d"
| "firstInlineData (None # parts) = firstInlineData parts"

definition panelImageLogic ::
  "(GoogleGenAI \<Rightarrow> 'w \<Rightarrow> (js_error + image_response) \<times> 'w) \<Rightarrow>
   GoogleGenAI \<Rightarrow> 'w \<Rightarrow> (js_error + string) \<times> 'w" where
  "panelImageLogic generateContent ai w =
     (case generateContent ai w of
        (Inl error, w') \<Rightarrow> (Inl error, w')
      | (Inr response, w') \<Rightarrow>
          (case (case response of None \<Rightarrow> None | Some parts \<Rightarrow> firstInlineData parts) of
             Some d \<Rightarrow> (Inr (''data:image/png;base64,'' @ d), w')
           | None \<Rightarrow>
               (Inl (GeminiApiError ''No image was generated for the story panel.''
                  ''The panel generation was blocked, possibly due to a content safety filter. Please try regenerating or modifying the story.''),
                w')))"

text \<open>\<open>error instanceof Error ? error.message : String(error)\<close>\<close>

fun errorMessageOrString :: "js_error \<Rightarrow> string" where
  "errorMessageOrString (JsError name msg) = msg"
| "errorMessageOrString (GeminiApiError msg userFriendlyMessage) = msg"
| "errorMessageOrString (NonError s) = s"

definition generatePanelImage ::
  "string list \<Rightarrow> (GoogleGenAI \<Rightarrow> 'w \<Rightarrow> (js_error + image_response) \<times> 'w) \<Rightarrow>
   'w exec_state \<Rightarrow> (js_error + string) \<times> 'w exec_state" where
  "generatePanelImage apiKeys generateContent st =
     (case geminiApiCall apiKeys (panelImageLogic generateContent) st of
        (Inr panelImage, st') \<Rightarrow> (Inr panelImage, st')
      | (Inl error, st') \<Rightarrow>
          (case error of
             GeminiApiError msg userFriendlyMessage \<Rightarrow>
               if includes_js msg ''rate limits''
               then (Inr (createPlaceholderSvgDataUrl ''API Limit Reached''), st')
               else (Inl error, st')
           | _ \<Rightarrow>
               (Inl (GeminiApiError (errorMessageOrString error)
                  ''An unexpected error occurred while generating the panel image.''),
                st')))"

section \<open>Panels and the project\<close>

text \<open>
  An optional or nullable field of the source distinguishes a missing value
  (\<open>undefined\<close>), \<open>null\<close> and a value. Optional booleans and strings that are never set
  to \<open>null\<close> are options, \<open>None\<close> for \<open>undefined\<close>. Numbers of the lettering geometry
  are reals; the page number is an integer.
\<close>

datatype 'a nullable = Undefined | Null | Value 'a

datatype layout = standard | wide | tall | splash

datatype lettering_type = dialogue_t | narration_t | thought_t | shout_t

record SFX =
  text_js :: string
  style :: string

record LetteringElement =
  id_js :: string
  type_js :: lettering_type
  el_text :: string
  el_x :: real
  el_y :: real
  el_width :: real
  el_height :: real
  fontWeight :: string
  textAlign :: string
  fontFamily :: string
  fontSize :: real
  color :: string
  fillColor :: string
  tail :: "(real \<times> real) option"

record StoryPage =
  page :: int
  description :: string
  narration :: string
  dialogue :: "(string \<times> string) list"
  image_js :: "string nullable"
  isGenerating :: "bool option"
  isLettering :: "bool option"
  layout :: layout
  sfx :: "SFX option"
  lettering :: "LetteringElement list nullable"
  generationFailed :: "bool option"
  failureReason :: "string option"

text \<open>
  Of the project, the handlers below write the panel list only (the first update of a
  generation also sets the stage and the chapter title); the characters, the scenery, the
  styles and the story text go into the prompts of the backend calls.
\<close>

record Project =
  storyPages :: "StoryPage list"

text \<open>Truthiness of a string-valued and of a boolean-valued field.\<close>

fun truthyString :: "string nullable \<Rightarrow> bool" where
  "truthyString (Value s) = (s \<noteq> [])"
| "truthyString Null = False"
| "truthyString Undefined = False"

fun truthyBool :: "bool option \<Rightarrow> bool" where
  "truthyBool (Some b) = b"
| "truthyBool None = False"

text \<open>\<open>Array.prototype.map\<close> with the callback's second argument, the index.\<close>

definition mapIndexed :: "('a \<Rightarrow> nat \<Rightarrow> 'b) \<Rightarrow> 'a list \<Rightarrow> 'b list" where
  "mapIndexed f xs = map (\<lambda>idx. f (xs ! idx) idx) [0..<length xs]"

section \<open>The application state and its environment\<close>

text \<open>
  What a handler does to the outside is kept as a list of events, in order: each call of
  \<open>updateCurrentProject\<close> with the panel list it publishes, each \<open>alert\<close>, and each
  backend call it starts, named by the panel's index.
\<close>

datatype event =
    UpdateCurrentProject "StoryPage list"
  | Alert string
  | GenerateStory
  | GeneratePanelImage nat
  | AnalyzePanelForLettering nat
  | EditPanelImage nat

record app_state =
  currentProject :: "Project option"
  generationCancelledRef :: bool
  events :: "event list"

text \<open>
  The outcome of every awaited call is given by the environment: the script, the image of
  the call made for panel \<open>i\<close> with the arguments the handler passes, the lettering of the
  call made for panel \<open>i\<close>, the edited image. While the handler waits on its \<open>k\<close>-th
  sequential call (0 the script, \<open>i + 1\<close> the image of panel \<open>i\<close>) the user may press
  cancel (\<open>handleCancelGeneration\<close>): \<open>cancelRequested k\<close>. The lettering promises settle
  in the order \<open>settleOrder\<close>.
\<close>

record services =
  generateStory :: "js_error + StoryPage list"
  generatePanelImageAt ::
    "nat \<Rightarrow> string \<Rightarrow> SFX option \<Rightarrow> layout \<Rightarrow> string nullable \<Rightarrow> js_error + string"
  analyzePanelForLetteringAt ::
    "nat \<Rightarrow> string \<Rightarrow> (string \<times> string) list \<Rightarrow> string \<Rightarrow> js_error + LetteringElement list"
  editPanelImageAt :: "nat \<Rightarrow> string \<Rightarrow> string \<Rightarrow> js_error + string"
  cancelRequested :: "nat \<Rightarrow> bool"
  settleOrder :: "nat list"

definition handleCancelGeneration :: "app_state \<Rightarrow> app_state" where
  "handleCancelGeneration app = app\<lparr>generationCancelledRef := True\<rparr>"

definition updateCurrentProject :: "StoryPage list \<Rightarrow> app_state \<Rightarrow> app_state" where
  "updateCurrentProject pages app =
     app\<lparr>currentProject :=
           (case currentProject app of
              None \<Rightarrow> None
            | Some prevProject \<Rightarrow> Some (prevProject\<lparr>storyPages := pages\<rparr>)),
         events := events app @ [UpdateCurrentProject pages]\<rparr>"

definition startCall :: "event \<Rightarrow> app_state \<Rightarrow> app_state" where
  "startCall e app = app\<lparr>events := events app @ [e]\<rparr>"

text \<open>The state after an await during which cancel was pressed or not.\<close>

definition afterAwait :: "bool \<Rightarrow> app_state \<Rightarrow> app_state" where
  "afterAwait pressed app = (if pressed then handleCancelGeneration app else app)"

section \<open>handleGenerateStory: the sequential image stage\<close>

text \<open>
  One iteration of the loop over the panels, for index \<open>i < totalPanels\<close>, on the local
  list \<open>pagesWithImages\<close> and the application state. The boolean says whether the
  iteration left the loop by \<open>break\<close>. The loop runs it for indices below the number of
  panels only, and no step changes the length of the list, so the reads at \<open>i\<close> and at
  \<open>i - 1\<close> are inside the list. The loader and the cancel button of the user interface
  are not part of the state.
\<close>

definition failureReasonOf :: "js_error \<Rightarrow> string" where
  "failureReasonOf panelError =
     (case panelError of
        GeminiApiError msg userFriendlyMessage \<Rightarrow> userFriendlyMessage
      | _ \<Rightarrow> ''An unknown error occurred.'')"

definition imageIteration ::
  "services \<Rightarrow> nat \<Rightarrow> StoryPage list \<times> app_state \<Rightarrow> (StoryPage list \<times> app_state) \<times> bool" where
  "imageIteration env i s =
     (let pagesWithImages = fst s; app = snd s
      in if generationCancelledRef app then
           (let pages =
                  mapIndexed (\<lambda>p idx.
                      if idx \<ge> i
                      then p\<lparr>isGenerating := Some False, generationFailed := Some True,
                             failureReason := Some ''Generation was cancelled.''\<rparr>
                      else p) pagesWithImages
            in ((pages, updateCurrentProject pages app), True))
         else
           (let previousPanelImage =
                  (if i > 0 then image_js (pagesWithImages ! (i - 1)) else Undefined);
                outcome =
                  generatePanelImageAt env i (description (pagesWithImages ! i))
                    (sfx (pagesWithImages ! i)) (layout (pagesWithImages ! i)) previousPanelImage;
                app' = afterAwait (cancelRequested env (i + 1)) (startCall (GeneratePanelImage i) app)
            in case outcome of
                 Inr panelImage \<Rightarrow>
                   (let pages =
                          mapIndexed (\<lambda>p idx.
                              if idx = i
                              then p\<lparr>image_js := Value panelImage, isGenerating := Some False,
                                     isLettering := Some True\<rparr>
                              else p) pagesWithImages
                    in ((pages, updateCurrentProject pages app'), False))
               | Inl panelError \<Rightarrow>
                   (let reason = failureReasonOf panelError;
                        pages =
                          mapIndexed (\<lambda>p idx.
                              if idx = i
                              then p\<lparr>isGenerating := Some False, isLettering := Some False,
                                     generationFailed := Some True, failureReason := Some reason,
                                     image_js := Null\<rparr>
                              else p) pagesWithImages
                    in ((pages, updateCurrentProject pages app'), False))))"

function imageLoop ::
  "services \<Rightarrow> nat \<Rightarrow> nat \<Rightarrow> StoryPage list \<times> app_state \<Rightarrow> StoryPage list \<times> app_state" where
  "imageLoop env totalPanels i s =
     (if i < totalPanels
      then (if snd (imageIteration env i s) then fst (imageIteration env i s)
            else imageLoop env totalPanels (i + 1) (fst (imageIteration env i s)))
      else s)"
  by pat_completeness auto
termination
  by (relation "measure (\<lambda>(env, totalPanels, i, s). totalPanels - i)") auto

section \<open>handleGenerateStory: the parallel lettering stage\<close>

text \<open>
  The value each lettering promise settles with: \<open>null\<close> (here \<open>None\<close>) for a panel that
  is not analysed, otherwise the record with the panel's own index, the lettering or
  \<open>null\<close>, and the error or \<open>null\<close>.
\<close>

datatype lettering_result =
  LetteringResult (resultIndex: nat) (resultLettering: "LetteringElement list nullable")
    (resultError: "js_error option")

definition letteringPromise :: "services \<Rightarrow> StoryPage \<Rightarrow> nat \<Rightarrow> lettering_result option" where
  "letteringPromise env pg i =
     (case image_js pg of
        Value img \<Rightarrow>
          if truthyString (image_js pg) \<and> \<not> truthyBool (generationFailed pg)
          then (case analyzePanelForLetteringAt env i img (dialogue pg) (narration pg) of
                  Inr letteringData \<Rightarrow> Some (LetteringResult i (Value letteringData) None)
                | Inl error \<Rightarrow> Some (LetteringResult i Null (Some error)))
          else None
      | _ \<Rightarrow> None)"

definition letteringCalls :: "StoryPage list \<Rightarrow> event list" where
  "letteringCalls pages =
     map AnalyzePanelForLettering
       (filter (\<lambda>i. truthyString (image_js (pages ! i)) \<and> \<not> truthyBool (generationFailed (pages ! i)))
          [0..<length pages])"

text \<open>
  \<open>Promise.all\<close>: each promise, when it settles, stores its value in the slot of its own
  position; the result exists once every slot is filled, and is the list of the slots.
\<close>

definition promiseAll :: "nat list \<Rightarrow> 'a list \<Rightarrow> 'a list option" where
  "promiseAll order promises =
     (let slots =
            fold (\<lambda>k slots. if k < length slots then slots[k := Some (promises ! k)] else slots)
              order (replicate (length promises) None)
      in if list_all (\<lambda>slot. slot \<noteq> None) slots then Some (map the slots) else None)"

text \<open>
  The merge writes each result at the index the result carries. That index is the
  position of a panel, so the write is inside the list.
\<close>

definition mergeLettering :: "lettering_result option list \<Rightarrow> StoryPage list \<Rightarrow> StoryPage list" where
  "mergeLettering letteringResults pagesWithImages =
     fold (\<lambda>result finalPages.
            case result of
              None \<Rightarrow> finalPages
            | Some r \<Rightarrow>
                finalPages[resultIndex r :=
                  (finalPages ! resultIndex r)\<lparr>lettering := resultLettering r, isLettering := Some False\<rparr>])
       letteringResults pagesWithImages"

definition letteringStage :: "services \<Rightarrow> StoryPage list \<Rightarrow> app_state \<Rightarrow> app_state" where
  "letteringStage env pagesWithImages app =
     (let letteringPromises = mapIndexed (letteringPromise env) pagesWithImages;
          app' = app\<lparr>events := events app @ letteringCalls pagesWithImages\<rparr>
      in case promiseAll (settleOrder env) letteringPromises of
           None \<Rightarrow> app'
         | Some letteringResults \<Rightarrow>
             (updateCurrentProject (mergeLettering letteringResults pagesWithImages) app')
               \<lparr>generationCancelledRef := False\<rparr>)"

definition scriptErrorMessage :: "js_error \<Rightarrow> string" where
  "scriptErrorMessage error =
     (case error of
        GeminiApiError msg userFriendlyMessage \<Rightarrow> userFriendlyMessage
      | JsError name msg \<Rightarrow> msg
      | NonError s \<Rightarrow> ''An unknown error occurred.'')"

text \<open>
  The handler in its stages: the state once the script call has been awaited, the panels
  as they are initialised from the script, the sequential stage on them, and the whole.
\<close>

definition scriptAwaited :: "services \<Rightarrow> app_state \<Rightarrow> app_state" where
  "scriptAwaited env app0 =
     afterAwait (cancelRequested env 0)
       (startCall GenerateStory (app0\<lparr>generationCancelledRef := False\<rparr>))"

definition initialPages :: "StoryPage list \<Rightarrow> StoryPage list" where
  "initialPages generatedPages =
     map (\<lambda>p. p\<lparr>isGenerating := Some True, lettering := Null, generationFailed := Some False\<rparr>)
       generatedPages"

definition imageStage ::
  "services \<Rightarrow> StoryPage list \<Rightarrow> app_state \<Rightarrow> StoryPage list \<times> app_state" where
  "imageStage env generatedPages app =
     (let pagesWithImages = initialPages generatedPages;
          totalPanels = length generatedPages
      in imageLoop env totalPanels 0 (pagesWithImages, updateCurrentProject pagesWithImages app))"

definition handleGenerateStory :: "services \<Rightarrow> app_state \<Rightarrow> app_state" where
  "handleGenerateStory env app0 =
     (case currentProject app0 of
        None \<Rightarrow> app0
      | Some project \<Rightarrow>
          (let app1 = scriptAwaited env app0
           in case generateStory env of
                Inl error \<Rightarrow>
                  (startCall (Alert (''Story Script Generation Failed: '' @ scriptErrorMessage error)) app1)
                    \<lparr>generationCancelledRef := False\<rparr>
              | Inr generatedPages \<Rightarrow>
                  (let s = imageStage env generatedPages app1
                   in if generationCancelledRef (snd s)
                      then (snd s)\<lparr>generationCancelledRef := False\<rparr>
                      else letteringStage env (fst s) (snd s))))"

section \<open>handleRegeneratePanel and handleEditPanel\<close>

definition regenerateFailed :: "Project \<Rightarrow> nat \<Rightarrow> js_error \<Rightarrow> app_state \<Rightarrow> app_state" where
  "regenerateFailed project pageIndex error app =
     (let reason =
            (case error of
               GeminiApiError msg userFriendlyMessage \<Rightarrow> userFriendlyMessage
             | _ \<Rightarrow> ''An unknown error occurred during regeneration.'');
          pagesInProgress =
            mapIndexed (\<lambda>p i.
                if i = pageIndex
                then p\<lparr>isGenerating := Some False, isLettering := Some False,
                       generationFailed := Some True, failureReason := Some reason\<rparr>
                else p) (storyPages project)
      in updateCurrentProject pagesInProgress app)"

definition handleRegeneratePanel :: "services \<Rightarrow> nat \<Rightarrow> app_state \<Rightarrow> app_state" where
  "handleRegeneratePanel env pageIndex app =
     (case currentProject app of
        None \<Rightarrow> app
      | Some project \<Rightarrow>
          if \<not> pageIndex < length (storyPages project) then app
          else
            (let pageToRegen = storyPages project ! pageIndex;
                 pagesInProgress =
                   mapIndexed (\<lambda>p i.
                       if i = pageIndex
                       then p\<lparr>isGenerating := Some True, isLettering := Some False, image_js := Null,
                              lettering := Null, generationFailed := Some False,
                              failureReason := None\<rparr>
                       else p) (storyPages project);
                 app1 = updateCurrentProject pagesInProgress app;
                 previousPanelImage =
                   (if pageIndex > 0 then image_js (storyPages project ! (pageIndex - 1))
                    else Undefined);
                 app2 = startCall (GeneratePanelImage pageIndex) app1
             in case generatePanelImageAt env pageIndex (description pageToRegen)
                       (sfx pageToRegen) (layout pageToRegen) previousPanelImage of
                  Inl error \<Rightarrow> regenerateFailed project pageIndex error app2
                | Inr panelImage \<Rightarrow>
                    (let pagesInProgress2 =
                           mapIndexed (\<lambda>p i.
                               if i = pageIndex
                               then p\<lparr>image_js := Value panelImage, isGenerating := Some False,
                                      isLettering := Some True\<rparr>
                               else p) pagesInProgress;
                         app3 = startCall (AnalyzePanelForLettering pageIndex)
                                  (updateCurrentProject pagesInProgress2 app2)
                     in case analyzePanelForLetteringAt env pageIndex panelImage
                               (dialogue pageToRegen) (narration pageToRegen) of
                          Inl error \<Rightarrow> regenerateFailed project pageIndex error app3
                        | Inr letteringData \<Rightarrow>
                            updateCurrentProject
                              (mapIndexed (\<lambda>p i.
                                   if i = pageIndex
                                   then p\<lparr>lettering := Value letteringData, isLettering := Some False\<rparr>
                                   else p) pagesInProgress2)
                              app3)))"

text \<open>Decimal digits of a number, for the message that names a panel.\<close>

fun showNat :: "nat \<Rightarrow> string" where
  "showNat n =
     (if n < 10 then [char_of (48 + n)]
      else showNat (n div 10) @ [char_of (48 + n mod 10)])"

definition editFailed :: "nat \<Rightarrow> StoryPage list \<Rightarrow> js_error \<Rightarrow> app_state \<Rightarrow> app_state" where
  "editFailed pageIndex pagesInProgress error app =
     (let message =
            (case error of
               GeminiApiError msg userFriendlyMessage \<Rightarrow> ''Panel Edit Failed: '' @ userFriendlyMessage
             | JsError name msg \<Rightarrow> ''An unexpected error occurred: '' @ msg
             | NonError s \<Rightarrow>
                 ''An unknown error occurred while editing panel '' @ showNat (pageIndex + 1) @ ''.'');
          app' = startCall (Alert message) app;
          pages =
            mapIndexed (\<lambda>p i.
                if i = pageIndex then p\<lparr>isGenerating := Some False, isLettering := Some False\<rparr>
                else p) pagesInProgress
      in updateCurrentProject pages app')"

definition handleEditPanel :: "services \<Rightarrow> nat \<Rightarrow> string \<Rightarrow> app_state \<Rightarrow> app_state" where
  "handleEditPanel env pageIndex editPrompt app =
     (case currentProject app of
        None \<Rightarrow> app
      | Some project \<Rightarrow>
          if \<not> pageIndex < length (storyPages project) then app
          else
            (let pageToEdit = storyPages project ! pageIndex
             in case image_js pageToEdit of
                  Value img \<Rightarrow>
                    if \<not> truthyString (image_js pageToEdit) then app
                    else
                      (let pagesInProgress =
                             mapIndexed (\<lambda>p i.
                                 if i = pageIndex then p\<lparr>isGenerating := Some True, lettering := Null\<rparr>
                                 else p) (storyPages project);
                           app1 = startCall (EditPanelImage pageIndex)
                                    (updateCurrentProject pagesInProgress app)
                       in case editPanelImageAt env pageIndex img editPrompt of
                            Inl error \<Rightarrow> editFailed pageIndex pagesInProgress error app1
                          | Inr editedImage \<Rightarrow>
                              (let pagesInProgress2 =
                                     mapIndexed (\<lambda>p i.
                                         if i = pageIndex
                                         then p\<lparr>image_js := Value editedImage,
                                                isGenerating := Some False, isLettering := Some True\<rparr>
                                         else p) pagesInProgress;
                                   app2 = startCall (AnalyzePanelForLettering pageIndex)
                                            (updateCurrentProject pagesInProgress2 app1)
                               in case analyzePanelForLetteringAt env pageIndex editedImage
                                         (dialogue pageToEdit) (narration pageToEdit) of
                                    Inl error \<Rightarrow> editFailed pageIndex pagesInProgress2 error app2
                                  | Inr letteringData \<Rightarrow>
                                      updateCurrentProject
                                        (mapIndexed (\<lambda>p i.
                                             if i = pageIndex
                                             then p\<lparr>lettering := Value letteringData,
                                                    isLettering := Some False\<rparr>
                                             else p) pagesInProgress2)
                                        app2))
                | _ \<Rightarrow> app))"

text \<open>The panel list of the current project, empty when there is no project.\<close>

definition pagesOf :: "app_state \<Rightarrow> StoryPage list" where
  "pagesOf app = (case currentProject app of None \<Rightarrow> [] | Some project \<Rightarrow> storyPages project)"

section \<open>Observations on a run\<close>

text \<open>The panels for which an image call, and a lettering call, was started, in order.\<close>

fun imageCallsOf :: "event list \<Rightarrow> nat list" where
  "imageCallsOf [] = []"
| "imageCallsOf (GeneratePanelImage i # es) = i # imageCallsOf es"
| "imageCallsOf (e # es) = imageCallsOf es"

fun letteringCallsOf :: "event list \<Rightarrow> nat list" where
  "letteringCallsOf [] = []"
| "letteringCallsOf (AnalyzePanelForLettering i # es) = i # letteringCallsOf es"
| "letteringCallsOf (e # es) = letteringCallsOf es"

fun alertsOf :: "event list \<Rightarrow> string list" where
  "alertsOf [] = []"
| "alertsOf (Alert m # es) = m # alertsOf es"
| "alertsOf (e # es) = alertsOf es"

text \<open>An operation fails with a rate-limit error whichever credential of the pool it is given.\<close>

definition rateLimitedOnPool ::
  "string list \<Rightarrow> (GoogleGenAI \<Rightarrow> 'w \<Rightarrow> (js_error + 'a) \<times> 'w) \<Rightarrow> bool" where
  "rateLimitedOnPool apiKeys apiLogic =
     (\<forall>i<length apiKeys. \<forall>w. \<exists>e w'.
         apiLogic (GoogleGenAI (Some (apiKeys ! i))) w = (Inl e, w') \<and> isRateLimitError e)"

text \<open>
  What the lettering stage is expected to leave on panel \<open>i\<close>: for a panel with an image
  that did not fail, the lettering its own call returned, or \<open>null\<close> when that call failed,
  and \<open>isLettering\<close> false; any other panel as it was.
\<close>

definition letteredPage :: "services \<Rightarrow> StoryPage \<Rightarrow> nat \<Rightarrow> StoryPage" where
  "letteredPage env pg i =
     (case image_js pg of
        Value img \<Rightarrow>
          if img \<noteq> [] \<and> generationFailed pg \<noteq> Some True
          then pg\<lparr>lettering :=
                    (case analyzePanelForLetteringAt env i img (dialogue pg) (narration pg) of
                       Inr letteringData \<Rightarrow> Value letteringData
                     | Inl error \<Rightarrow> Null),
                  isLettering := Some False\<rparr>
          else pg
      | _ \<Rightarrow> pg)"

text \<open>A panel with the fields an edit may touch blanked out.\<close>

definition withoutEditedFields :: "StoryPage \<Rightarrow> StoryPage" where
  "withoutEditedFields pg =
     pg\<lparr>image_js := Undefined, lettering := Undefined, isGenerating := None, isLettering := None\<rparr>"

section \<open>Sample inputs\<close>

text \<open>Concrete pools, operations, panels and environments on which the theorems are instantiated.\<close>

definition samplePool :: "string list" where
  "samplePool = [''key-a'', ''key-b'', ''key-c'']"

definition twinPool :: "string list" where
  "twinPool = [''key-a'', ''key-a'']"

definition pairPool :: "string list" where
  "pairPool = [''key-a'', ''key-b'']"

definition freshExec :: "unit exec_state" where
  "freshExec = \<lparr>currentKeyIndex = 0, world = (), attempts = []\<rparr>"

definition alwaysThrows :: "js_error \<Rightarrow> GoogleGenAI \<Rightarrow> unit \<Rightarrow> (js_error + string) \<times> unit" where
  "alwaysThrows e ai w = (Inl e, w)"

definition modelAlwaysThrows ::
  "js_error \<Rightarrow> GoogleGenAI \<Rightarrow> unit \<Rightarrow> (js_error + image_response) \<times> unit" where
  "modelAlwaysThrows e ai w = (Inl e, w)"

definition quotaError :: js_error where
  "quotaError = JsError ''ApiError'' ''429 RESOURCE_EXHAUSTED: Quota exceeded''"

definition otherQuotaError :: js_error where
  "otherQuotaError = JsError ''ApiError'' ''Rate limit reached''"

definition badRequest :: js_error where
  "badRequest = JsError ''ApiError'' ''400 INVALID_ARGUMENT''"

definition blockedError :: js_error where
  "blockedError =
     GeminiApiError ''No image was generated for the story panel.''
       ''The panel generation was blocked, possibly due to a content safety filter. Please try regenerating or modifying the story.''"

definition editBlockedError :: js_error where
  "editBlockedError =
     GeminiApiError ''No edited image was generated.''
       ''The image edit was blocked, possibly due to a content safety filter. Please try a different edit prompt.''"

definition samplePage :: "int \<Rightarrow> StoryPage" where
  "samplePage k =
     \<lparr>page = k, description = ''A street at dusk'', narration = ''Later that day'',
      dialogue = [(''Ana'', ''Look!'')], image_js = Undefined, isGenerating = None,
      isLettering = None, layout = standard, sfx = None, lettering = Undefined,
      generationFailed = None, failureReason = None\<rparr>"

definition sampleScript :: "StoryPage list" where
  "sampleScript = [samplePage 1, samplePage 2, samplePage 3]"

definition sampleElement :: LetteringElement where
  "sampleElement =
     \<lparr>id_js = ''e1'', type_js = dialogue_t, el_text = ''Look!'', el_x = 10, el_y = 10,
      el_width = 80, el_height = 12, fontWeight = ''normal'', textAlign = ''left'',
      fontFamily = ''Inter'', fontSize = 2, color = ''#000000'', fillColor = ''#FFFFFF'',
      tail = Some (50, 50)\<rparr>"

definition sampleImage ::
  "nat \<Rightarrow> string \<Rightarrow> SFX option \<Rightarrow> layout \<Rightarrow> string nullable \<Rightarrow> js_error + string" where
  "sampleImage i d s l prev = Inr ''data:image/png;base64,AAAA''"

definition secondImageFails ::
  "nat \<Rightarrow> string \<Rightarrow> SFX option \<Rightarrow> layout \<Rightarrow> string nullable \<Rightarrow> js_error + string" where
  "secondImageFails i d s l prev =
     (if i = 1 then Inl blockedError else Inr ''data:image/png;base64,AAAA'')"

definition secondImageExhausted ::
  "nat \<Rightarrow> string \<Rightarrow> SFX option \<Rightarrow> layout \<Rightarrow> string nullable \<Rightarrow> js_error + string" where
  "secondImageExhausted i d s l prev =
     (if i = 1 then fst (generatePanelImage samplePool (modelAlwaysThrows quotaError) freshExec)
      else Inr ''data:image/png;base64,AAAA'')"

definition sampleLettering ::
  "nat \<Rightarrow> string \<Rightarrow> (string \<times> string) list \<Rightarrow> string \<Rightarrow> js_error + LetteringElement list" where
  "sampleLettering i img d n =
     (if i = 0 then Inr [sampleElement]
      else if i = 1 then Inr [sampleElement, sampleElement]
      else Inr [sampleElement, sampleElement, sampleElement])"

definition editIsBlocked :: "nat \<Rightarrow> string \<Rightarrow> string \<Rightarrow> js_error + string" where
  "editIsBlocked i img prompt = Inl editBlockedError"

definition neverPressed :: "nat \<Rightarrow> bool" where
  "neverPressed k = False"

definition pressedDuring :: "nat \<Rightarrow> nat \<Rightarrow> bool" where
  "pressedDuring c k = (k = c)"

definition sampleServices :: services where
  "sampleServices =
     \<lparr>generateStory = Inr sampleScript, generatePanelImageAt = sampleImage,
      analyzePanelForLetteringAt = sampleLettering, editPanelImageAt = editIsBlocked,
      cancelRequested = neverPressed, settleOrder = [2, 1, 0]\<rparr>"

definition emptyApp :: app_state where
  "emptyApp =
     \<lparr>currentProject = Some \<lparr>storyPages = []\<rparr>, generationCancelledRef = False, events = []\<rparr>"

definition letteredPanel :: StoryPage where
  "letteredPanel =
     (samplePage 1)\<lparr>image_js := Value ''data:image/png;base64,AAAA'', isGenerating := Some False,
                    isLettering := Some False, lettering := Value [sampleElement],
                    generationFailed := Some False\<rparr>"

definition failedPanel :: StoryPage where
  "failedPanel =
     (samplePage 1)\<lparr>image_js := Null, isGenerating := Some False, isLettering := Some False,
                    lettering := Null, generationFailed := Some True,
                    failureReason := Some ''An unknown error occurred.''\<rparr>"

definition appWith :: "StoryPage list \<Rightarrow> app_state" where
  "appWith pages =
     \<lparr>currentProject = Some \<lparr>storyPages = pages\<rparr>, generationCancelledRef = False, events = []\<rparr>"

definition cancelledServices :: services where
  "cancelledServices = sampleServices\<lparr>cancelRequested := pressedDuring 1\<rparr>"

definition failingServices :: services where
  "failingServices = sampleServices\<lparr>generatePanelImageAt := secondImageFails\<rparr>"

definition exhaustedServices :: services where
  "exhaustedServices = sampleServices\<lparr>generatePanelImageAt := secondImageExhausted\<rparr>"

definition stagedPanel :: "int \<Rightarrow> StoryPage" where
  "stagedPanel k =
     (samplePage k)\<lparr>image_js := Value ''data:image/png;base64,AAAA'', isGenerating := Some False,
                    isLettering := Some True, lettering := Null, generationFailed := Some False\<rparr>"

definition stagedPages :: "StoryPage list" where
  "stagedPages = [stagedPanel 1, failedPanel, stagedPanel 3]"

section \<open>Properties of the key pool and the executor\<close>


lemma getNextKey_in_range:
  "c < length apiKeys \<Longrightarrow>
   getNextKey apiKeys c = (\<lparr>key = Some (apiKeys ! c), index = c\<rparr>, (c + 1) mod length apiKeys)"
  by (simp add: getNextKey_def keyAt_def)

lemma cursor_step_bound: "c < N \<Longrightarrow> (c + 1) mod N < (N::nat)"
proof -
  assume "c < N"
  then have "0 < N" by arith
  then show ?thesis by (rule mod_less_divisor)
qed

lemma nextKeys_cursor:
  "c < length apiKeys \<Longrightarrow> snd (nextKeys apiKeys n c) = (c + n) mod length apiKeys"
proof (induction n arbitrary: c)
  case 0
  then show ?case by simp
next
  case (Suc n)
  have pos: "(c + 1) mod length apiKeys < length apiKeys"
    using Suc.prems by (rule cursor_step_bound)
  have "snd (nextKeys apiKeys (Suc n) c) = snd (nextKeys apiKeys n ((c + 1) mod length apiKeys))"
    by (simp add: getNextKey_def split: prod.splits)
  also have "\<dots> = ((c + 1) mod length apiKeys + n) mod length apiKeys"
    using Suc.IH [OF pos] .
  also have "\<dots> = (c + Suc n) mod length apiKeys"
    by (simp add: mod_add_left_eq)
  finally show ?case .
qed

lemma nextKeys_indices:
  "c < length apiKeys \<Longrightarrow>
   map index (fst (nextKeys apiKeys n c)) = map (\<lambda>k. (c + k) mod length apiKeys) [0..<n]"
proof (induction n arbitrary: c)
  case 0
  then show ?case by simp
next
  case (Suc n)
  have pos: "(c + 1) mod length apiKeys < length apiKeys"
    using Suc.prems by (rule cursor_step_bound)
  have "map index (fst (nextKeys apiKeys (Suc n) c)) =
        c # map index (fst (nextKeys apiKeys n ((c + 1) mod length apiKeys)))"
    by (simp add: getNextKey_def split: prod.splits)
  also have "\<dots> = c # map (\<lambda>k. ((c + 1) mod length apiKeys + k) mod length apiKeys) [0..<n]"
    using Suc.IH [OF pos] by simp
  also have "\<dots> = c # map (\<lambda>k. (c + Suc k) mod length apiKeys) [0..<n]"
    by (simp add: mod_add_left_eq)
  also have "\<dots> = map (\<lambda>k. (c + k) mod length apiKeys) [0..<Suc n]"
    using Suc.prems by (simp add: map_upt_Suc del: upt_Suc)
  finally show ?case .
qed

lemma nextKeys_keys:
  "c < length apiKeys \<Longrightarrow>
   map key (fst (nextKeys apiKeys n c)) = map (\<lambda>i. Some (apiKeys ! i)) (map index (fst (nextKeys apiKeys n c)))"
proof (induction n arbitrary: c)
  case 0
  then show ?case by simp
next
  case (Suc n)
  have pos: "(c + 1) mod length apiKeys < length apiKeys"
    using Suc.prems by (rule cursor_step_bound)
  show ?case using Suc.IH [OF pos] Suc.prems
    by (simp add: getNextKey_def keyAt_def split: prod.splits)
qed

lemma round_is_rotation:
  "c < N \<Longrightarrow> map (\<lambda>k. (c + k) mod N) [0..<N] = rotate c [0..<N]"
  by (rule nth_equalityI) (simp_all add: nth_rotate)

lemma round_distinct: "c < N \<Longrightarrow> distinct (map (\<lambda>k. (c + k) mod N) [0..<N])"
  by (simp add: round_is_rotation)

lemma round_set: "c < N \<Longrightarrow> set (map (\<lambda>k. (c + k) mod N) [0..<N]) = {0..<N}"
  by (simp only: round_is_rotation set_rotate set_upt)

text \<open>
  C5. With the cursor at c inside a pool of N keys, a call of getNextKey returns the key at
  c together with c and leaves the cursor at (c + 1) mod N, which is inside the pool again,
  as it is after any number of calls. N calls in a row return the indices c, c + 1, ...
  modulo N: each index of the pool exactly once. The call after them returns the index of
  the first call again. From the cursor's initial value 0 the indices are 0, ..., N - 1 in
  this order and the call after them returns index 0.
\<close>

theorem getNextKey_round_robin:
  assumes "c < length apiKeys"
  shows "getNextKey apiKeys c = (\<lparr>key = Some (apiKeys ! c), index = c\<rparr>, (c + 1) mod length apiKeys)
       \<and> snd (getNextKey apiKeys c) < length apiKeys
       \<and> snd (nextKeys apiKeys n c) < length apiKeys
       \<and> map index (fst (nextKeys apiKeys (length apiKeys) c)) =
           map (\<lambda>k. (c + k) mod length apiKeys) [0..<length apiKeys]
       \<and> distinct (map index (fst (nextKeys apiKeys (length apiKeys) c)))
       \<and> set (map index (fst (nextKeys apiKeys (length apiKeys) c))) = {0..<length apiKeys}
       \<and> index (fst (getNextKey apiKeys (snd (nextKeys apiKeys (length apiKeys) c)))) = c
       \<and> map index (fst (nextKeys apiKeys (length apiKeys) 0)) = [0..<length apiKeys]
       \<and> index (fst (getNextKey apiKeys (snd (nextKeys apiKeys (length apiKeys) 0)))) = 0"
proof -
  let ?N = "length apiKeys"
  have pos: "0 < ?N" using assms by arith
  have a: "getNextKey apiKeys c = (\<lparr>key = Some (apiKeys ! c), index = c\<rparr>, (c + 1) mod ?N)"
    using assms by (rule getNextKey_in_range)
  have b: "snd (getNextKey apiKeys c) < ?N" using pos by (simp add: a)
  have c: "snd (nextKeys apiKeys n c) < ?N" using pos by (simp add: nextKeys_cursor [OF assms])
  have d: "map index (fst (nextKeys apiKeys ?N c)) = map (\<lambda>k. (c + k) mod ?N) [0..<?N]"
    using assms by (rule nextKeys_indices)
  have e: "distinct (map index (fst (nextKeys apiKeys ?N c)))"
    by (simp only: d round_distinct [OF assms])
  have f: "set (map index (fst (nextKeys apiKeys ?N c))) = {0..<?N}"
    by (simp only: d round_set [OF assms])
  have g: "index (fst (getNextKey apiKeys (snd (nextKeys apiKeys ?N c)))) = c"
    using assms by (simp add: nextKeys_cursor getNextKey_def)
  have h: "map index (fst (nextKeys apiKeys ?N 0)) = [0..<?N]"
  proof -
    have "map (\<lambda>k. (0 + k) mod ?N) [0..<?N] = map (\<lambda>k. k) [0..<?N]"
      by (rule map_cong) simp_all
    then show ?thesis using nextKeys_indices [OF pos, of ?N] by simp
  qed
  have i: "index (fst (getNextKey apiKeys (snd (nextKeys apiKeys ?N 0)))) = 0"
    using pos by (simp add: nextKeys_cursor getNextKey_def)
  from a b c d e f g h i show ?thesis by blast
qed


lemma attemptLoop_all_rate_limited:
  assumes lim: "rateLimitedOnPool apiKeys apiLogic"
  shows "currentKeyIndex st < length apiKeys \<Longrightarrow> 0 < n \<or> isRateLimitError lastError \<Longrightarrow>
         fst (attemptLoop apiKeys apiLogic n lastError st) = Inl allKeysExhausted
       \<and> currentKeyIndex (snd (attemptLoop apiKeys apiLogic n lastError st)) =
           snd (nextKeys apiKeys n (currentKeyIndex st))
       \<and> attempts (snd (attemptLoop apiKeys apiLogic n lastError st)) =
           attempts st @ fst (nextKeys apiKeys n (currentKeyIndex st))"
proof (induction n arbitrary: st lastError)
  case 0
  then show ?case by simp
next
  case (Suc n)
  let ?c = "currentKeyIndex st"
  let ?r = "\<lparr>key = Some (apiKeys ! ?c), index = ?c\<rparr>"
  let ?c' = "(?c + 1) mod length apiKeys"
  have nk: "getNextKey apiKeys ?c = (?r, ?c')"
    using Suc.prems(1) by (rule getNextKey_in_range)
  obtain e w' where op: "apiLogic (GoogleGenAI (Some (apiKeys ! ?c))) (world st) = (Inl e, w')"
    and e: "isRateLimitError e"
    using lim Suc.prems(1) unfolding rateLimitedOnPool_def by blast
  let ?st' = "st\<lparr>currentKeyIndex := ?c', world := w', attempts := attempts st @ [?r]\<rparr>"
  have step: "attemptLoop apiKeys apiLogic (Suc n) lastError st = attemptLoop apiKeys apiLogic n e ?st'"
    by (simp add: nk op e)
  have bound: "currentKeyIndex ?st' < length apiKeys"
    using cursor_step_bound [OF Suc.prems(1)] by simp
  have ih: "fst (attemptLoop apiKeys apiLogic n e ?st') = Inl allKeysExhausted
       \<and> currentKeyIndex (snd (attemptLoop apiKeys apiLogic n e ?st')) =
           snd (nextKeys apiKeys n (currentKeyIndex ?st'))
       \<and> attempts (snd (attemptLoop apiKeys apiLogic n e ?st')) =
           attempts ?st' @ fst (nextKeys apiKeys n (currentKeyIndex ?st'))"
    using Suc.IH [OF bound] e by blast
  have nks: "nextKeys apiKeys (Suc n) ?c =
             (?r # fst (nextKeys apiKeys n ?c'), snd (nextKeys apiKeys n ?c'))"
    by (simp add: nk split: prod.splits)
  show ?case using ih by (simp only: step nks) simp
qed

lemma attemptLoopShared_alone:
  "set others \<subseteq> {0} \<Longrightarrow>
   attemptLoopShared apiKeys apiLogic others n lastError st = attemptLoop apiKeys apiLogic n lastError st"
proof (induction n arbitrary: others lastError st)
  case 0
  show ?case by simp
next
  case (Suc n)
  have taken: "(case others of [] \<Rightarrow> 0 | k # ks \<Rightarrow> k) = 0"
    using Suc.prems by (cases others) auto
  have later: "set (case others of [] \<Rightarrow> [] | k # ks \<Rightarrow> ks) \<subseteq> {0}"
    using Suc.prems by (cases others) auto
  show ?case
    by (simp add: Let_def taken Suc.IH [OF later] split: prod.splits sum.splits)
qed

lemma attemptLoopShared_all_rate_limited:
  assumes lim: "rateLimitedOnPool apiKeys apiLogic"
  shows "currentKeyIndex st < length apiKeys \<Longrightarrow> 0 < n \<or> isRateLimitError lastError \<Longrightarrow>
         fst (attemptLoopShared apiKeys apiLogic others n lastError st) = Inl allKeysExhausted
       \<and> length (attempts (snd (attemptLoopShared apiKeys apiLogic others n lastError st))) =
           length (attempts st) + n"
proof (induction n arbitrary: st lastError others)
  case 0
  then show ?case by simp
next
  case (Suc n)
  let ?c = "currentKeyIndex st"
  let ?r = "\<lparr>key = Some (apiKeys ! ?c), index = ?c\<rparr>"
  let ?c' = "(?c + 1) mod length apiKeys"
  let ?taken = "case others of [] \<Rightarrow> 0 | k # ks \<Rightarrow> k"
  let ?later = "case others of [] \<Rightarrow> [] | k # ks \<Rightarrow> ks"
  have nk: "getNextKey apiKeys ?c = (?r, ?c')"
    using Suc.prems(1) by (rule getNextKey_in_range)
  obtain e w' where op: "apiLogic (GoogleGenAI (Some (apiKeys ! ?c))) (world st) = (Inl e, w')"
    and e: "isRateLimitError e"
    using lim Suc.prems(1) unfolding rateLimitedOnPool_def by blast
  let ?st' = "st\<lparr>currentKeyIndex := snd (nextKeys apiKeys ?taken ?c'), world := w',
                    attempts := attempts st @ [?r]\<rparr>"
  have step: "attemptLoopShared apiKeys apiLogic others (Suc n) lastError st =
              attemptLoopShared apiKeys apiLogic ?later n e ?st'"
    by (simp add: nk op e)
  have c': "?c' < length apiKeys" using Suc.prems(1) by (rule cursor_step_bound)
  have pos: "0 < length apiKeys" using Suc.prems(1) by arith
  have bound: "currentKeyIndex ?st' < length apiKeys"
    using nextKeys_cursor [OF c', of ?taken] pos by simp
  have ih: "fst (attemptLoopShared apiKeys apiLogic ?later n e ?st') = Inl allKeysExhausted
       \<and> length (attempts (snd (attemptLoopShared apiKeys apiLogic ?later n e ?st'))) =
           length (attempts ?st') + n"
    using Suc.IH [OF bound] e by blast
  show ?case using ih by (simp only: step) simp
qed

text \<open>
  C1, in the form that holds of the code. Let the operation fail with a rate-limit error on
  every credential of the pool. Whatever keys other callers take from the shared cursor
  meanwhile, geminiApiCall invokes the operation exactly N times and fails with the fixed
  error "All API keys have reached their rate limits.", whatever the last recorded error
  was. When no other caller takes a key between its attempts, the N invocations are at the
  N distinct indices c, c + 1, ... modulo N of the pool, each with the key stored at that
  index (so with N distinct keys when the entries of the pool are distinct), and the
  cursor is left where it was.
\<close>

theorem geminiApiCall_all_rate_limited:
  assumes "currentKeyIndex st < length apiKeys"
      and "rateLimitedOnPool apiKeys apiLogic"
  shows "fst (geminiApiCall apiKeys apiLogic st) = Inl allKeysExhausted
       \<and> attempts (snd (geminiApiCall apiKeys apiLogic st)) =
           attempts st @ fst (nextKeys apiKeys (length apiKeys) (currentKeyIndex st))
       \<and> length (fst (nextKeys apiKeys (length apiKeys) (currentKeyIndex st))) = length apiKeys
       \<and> map index (fst (nextKeys apiKeys (length apiKeys) (currentKeyIndex st))) =
           map (\<lambda>k. (currentKeyIndex st + k) mod length apiKeys) [0..<length apiKeys]
       \<and> distinct (map index (fst (nextKeys apiKeys (length apiKeys) (currentKeyIndex st))))
       \<and> map key (fst (nextKeys apiKeys (length apiKeys) (currentKeyIndex st))) =
           map (\<lambda>i. Some (apiKeys ! i))
             (map index (fst (nextKeys apiKeys (length apiKeys) (currentKeyIndex st))))
       \<and> (distinct apiKeys \<longrightarrow>
            distinct (map key (fst (nextKeys apiKeys (length apiKeys) (currentKeyIndex st)))))
       \<and> currentKeyIndex (snd (geminiApiCall apiKeys apiLogic st)) = currentKeyIndex st
       \<and> fst (geminiApiCallShared apiKeys apiLogic others st) = Inl allKeysExhausted
       \<and> length (attempts (snd (geminiApiCallShared apiKeys apiLogic others st))) =
           length (attempts st) + length apiKeys
       \<and> (set others \<subseteq> {0} \<longrightarrow>
            geminiApiCallShared apiKeys apiLogic others st = geminiApiCall apiKeys apiLogic st)"
proof -
  let ?N = "length apiKeys"
  let ?c = "currentKeyIndex st"
  let ?ks = "fst (nextKeys apiKeys ?N ?c)"
  have pos: "0 < ?N" using assms(1) by arith
  have shared: "fst (geminiApiCallShared apiKeys apiLogic others st) = Inl allKeysExhausted
       \<and> length (attempts (snd (geminiApiCallShared apiKeys apiLogic others st))) =
           length (attempts st) + ?N"
    unfolding geminiApiCallShared_def getTotalKeys_def
    using attemptLoopShared_all_rate_limited [OF assms(2) assms(1), of ?N] pos by blast
  have alone: "set others \<subseteq> {0} \<longrightarrow>
            geminiApiCallShared apiKeys apiLogic others st = geminiApiCall apiKeys apiLogic st"
    by (simp add: geminiApiCallShared_def geminiApiCall_def attemptLoopShared_alone)
  have loop: "fst (geminiApiCall apiKeys apiLogic st) = Inl allKeysExhausted
       \<and> currentKeyIndex (snd (geminiApiCall apiKeys apiLogic st)) = snd (nextKeys apiKeys ?N ?c)
       \<and> attempts (snd (geminiApiCall apiKeys apiLogic st)) = attempts st @ ?ks"
    unfolding geminiApiCall_def getTotalKeys_def
    using attemptLoop_all_rate_limited [OF assms(2) assms(1), of ?N] pos by blast
  have idx: "map index ?ks = map (\<lambda>k. (?c + k) mod ?N) [0..<?N]"
    using assms(1) by (rule nextKeys_indices)
  have len: "length ?ks = ?N"
    using arg_cong [OF idx, of length] by simp
  have dist: "distinct (map index ?ks)"
    by (simp only: idx round_distinct [OF assms(1)])
  have keys: "map key ?ks = map (\<lambda>i. Some (apiKeys ! i)) (map index ?ks)"
    using assms(1) by (rule nextKeys_keys)
  have inrange: "set (map index ?ks) \<subseteq> {0..<?N}"
    by (simp only: idx round_set [OF assms(1)])
  have dk: "distinct apiKeys \<longrightarrow> distinct (map key ?ks)"
  proof
    assume d: "distinct apiKeys"
    have "inj_on (\<lambda>i. Some (apiKeys ! i)) (set (map index ?ks))"
    proof (rule inj_onI)
      fix a b
      assume "a \<in> set (map index ?ks)" "b \<in> set (map index ?ks)"
        and eq: "Some (apiKeys ! a) = Some (apiKeys ! b)"
      then have "a < ?N" "b < ?N" using inrange by auto
      then show "a = b" using eq d by (simp add: nth_eq_iff_index_eq)
    qed
    then show "distinct (map key ?ks)"
      using dist by (simp only: keys distinct_map)
  qed
  have again: "snd (nextKeys apiKeys ?N ?c) = ?c"
    using assms(1) by (simp add: nextKeys_cursor)
  from loop idx len dist keys dk again shared alone show ?thesis by simp
qed

text \<open>
  C2. If the first invocation of the operation, with the key at the cursor, fails with an
  error that is not classified as a rate-limit error, geminiApiCall fails with that very
  error after that one invocation: one attempt is recorded and the cursor has advanced
  by one.
\<close>

theorem geminiApiCall_fail_fast:
  assumes "currentKeyIndex st < length apiKeys"
      and "apiLogic (GoogleGenAI (Some (apiKeys ! currentKeyIndex st))) (world st) = (Inl e, w')"
      and "\<not> isRateLimitError e"
  shows "geminiApiCall apiKeys apiLogic st =
           (Inl e, st\<lparr>currentKeyIndex := (currentKeyIndex st + 1) mod length apiKeys,
                      world := w',
                      attempts := attempts st @ [\<lparr>key = Some (apiKeys ! currentKeyIndex st),
                                                  index = currentKeyIndex st\<rparr>]\<rparr>)"
proof -
  obtain m where N: "length apiKeys = Suc m"
    using assms(1) by (cases "length apiKeys") auto
  have nk: "getNextKey apiKeys (currentKeyIndex st) =
            (\<lparr>key = Some (apiKeys ! currentKeyIndex st), index = currentKeyIndex st\<rparr>,
             (currentKeyIndex st + 1) mod length apiKeys)"
    using assms(1) by (rule getNextKey_in_range)
  show ?thesis
    unfolding geminiApiCall_def getTotalKeys_def N attemptLoop.simps
    by (simp add: nk [unfolded N] assms(2) assms(3))
qed


lemma quotaError_classified: "isRateLimitError quotaError"
  by code_simp

lemma otherQuotaError_classified: "isRateLimitError otherQuotaError"
  by code_simp

lemma badRequest_classified: "\<not> isRateLimitError badRequest"
  by code_simp

lemma rateLimitedOnPool_alwaysThrows:
  "isRateLimitError e \<Longrightarrow> rateLimitedOnPool apiKeys (alwaysThrows e)"
  by (simp add: rateLimitedOnPool_def alwaysThrows_def)


lemma geminiApiCall_exhausted:
  assumes "currentKeyIndex st < length apiKeys" and "rateLimitedOnPool apiKeys apiLogic"
  shows "fst (geminiApiCall apiKeys apiLogic st) = Inl allKeysExhausted"
    and "attempts (snd (geminiApiCall apiKeys apiLogic st)) =
           attempts st @ fst (nextKeys apiKeys (length apiKeys) (currentKeyIndex st))"
proof -
  have pos: "0 < length apiKeys" using assms(1) by arith
  show "fst (geminiApiCall apiKeys apiLogic st) = Inl allKeysExhausted"
    and "attempts (snd (geminiApiCall apiKeys apiLogic st)) =
           attempts st @ fst (nextKeys apiKeys (length apiKeys) (currentKeyIndex st))"
    unfolding geminiApiCall_def getTotalKeys_def
    using attemptLoop_all_rate_limited [OF assms(2) assms(1), of "length apiKeys"] pos by blast+
qed

lemma nextKeys_samplePool:
  "fst (nextKeys samplePool (length samplePool) 0) =
     [\<lparr>key = Some ''key-a'', index = 0\<rparr>, \<lparr>key = Some ''key-b'', index = 1\<rparr>,
      \<lparr>key = Some ''key-c'', index = 2\<rparr>]"
  by (simp add: samplePool_def getNextKey_def keyAt_def)

lemma nextKeys_twinPool:
  "fst (nextKeys twinPool (length twinPool) 0) =
     [\<lparr>key = Some ''key-a'', index = 0\<rparr>, \<lparr>key = Some ''key-a'', index = 1\<rparr>]"
  by (simp add: twinPool_def getNextKey_def keyAt_def)


lemma nextKeys_samplePool_from_1:
  "nextKeys samplePool (length samplePool) 1 =
     ([\<lparr>key = Some ''key-b'', index = 1\<rparr>, \<lparr>key = Some ''key-c'', index = 2\<rparr>,
       \<lparr>key = Some ''key-a'', index = 0\<rparr>], 1)"
  by (simp add: samplePool_def getNextKey_def keyAt_def)

theorem getNextKey_round_robin_witness:
  "(1::nat) < length samplePool
   \<and> map index (fst (nextKeys samplePool (length samplePool) 1)) = [1, 2, 0]
   \<and> index (fst (getNextKey samplePool (snd (nextKeys samplePool (length samplePool) 1)))) = 1
   \<and> map index (fst (nextKeys samplePool (length samplePool) 0)) = [0, 1, 2]
   \<and> index (fst (getNextKey samplePool (snd (nextKeys samplePool (length samplePool) 0)))) = 0"
proof -
  have h: "(1::nat) < length samplePool" by (simp add: samplePool_def)
  have three: "[0..<length samplePool] = [0, 1, 2]"
    by (simp add: samplePool_def upt_rec)
  show ?thesis
    using h getNextKey_round_robin [OF h, of 0]
    by (simp only: three nextKeys_samplePool_from_1) simp
qed


theorem geminiApiCall_all_rate_limited_witness:
  "currentKeyIndex freshExec < length samplePool
   \<and> rateLimitedOnPool samplePool (alwaysThrows quotaError)
   \<and> fst (geminiApiCall samplePool (alwaysThrows quotaError) freshExec) = Inl allKeysExhausted
   \<and> map index (attempts (snd (geminiApiCall samplePool (alwaysThrows quotaError) freshExec))) = [0, 1, 2]
   \<and> map key (attempts (snd (geminiApiCall samplePool (alwaysThrows quotaError) freshExec))) =
       [Some ''key-a'', Some ''key-b'', Some ''key-c'']
   \<and> fst (geminiApiCallShared samplePool (alwaysThrows quotaError) [1, 2] freshExec) =
       Inl allKeysExhausted
   \<and> length (attempts (snd (geminiApiCallShared samplePool (alwaysThrows quotaError) [1, 2]
                               freshExec))) = 3
   \<and> geminiApiCallShared samplePool (alwaysThrows quotaError) [0, 0] freshExec =
       geminiApiCall samplePool (alwaysThrows quotaError) freshExec"
proof -
  have h1: "currentKeyIndex freshExec < length samplePool"
    by (simp add: freshExec_def samplePool_def)
  have h2: "rateLimitedOnPool samplePool (alwaysThrows quotaError)"
    by (rule rateLimitedOnPool_alwaysThrows) (rule quotaError_classified)
  have c0: "currentKeyIndex freshExec = 0" "attempts freshExec = []" by (simp_all add: freshExec_def)
  have "fst (geminiApiCall samplePool (alwaysThrows quotaError) freshExec) = Inl allKeysExhausted
      \<and> attempts (snd (geminiApiCall samplePool (alwaysThrows quotaError) freshExec)) =
          attempts freshExec @ fst (nextKeys samplePool (length samplePool) (currentKeyIndex freshExec))"
    using geminiApiCall_all_rate_limited [OF h1 h2] by blast
  moreover have "fst (geminiApiCallShared samplePool (alwaysThrows quotaError) [1, 2] freshExec) =
                   Inl allKeysExhausted
      \<and> length (attempts (snd (geminiApiCallShared samplePool (alwaysThrows quotaError) [1, 2]
                                  freshExec))) = 3"
  proof -
    have "fst (geminiApiCallShared samplePool (alwaysThrows quotaError) [1, 2] freshExec) =
                   Inl allKeysExhausted
      \<and> length (attempts (snd (geminiApiCallShared samplePool (alwaysThrows quotaError) [1, 2]
                                  freshExec))) =
          length (attempts freshExec) + length samplePool"
      using geminiApiCall_all_rate_limited [where others = "[1, 2]", OF h1 h2] by blast
    then show ?thesis by (simp add: c0 samplePool_def)
  qed
  moreover have "geminiApiCallShared samplePool (alwaysThrows quotaError) [0, 0] freshExec =
                 geminiApiCall samplePool (alwaysThrows quotaError) freshExec"
  proof -
    have "set [0, 0] \<subseteq> {0::nat} \<longrightarrow>
          geminiApiCallShared samplePool (alwaysThrows quotaError) [0, 0] freshExec =
          geminiApiCall samplePool (alwaysThrows quotaError) freshExec"
      using geminiApiCall_all_rate_limited [where others = "[0, 0]", OF h1 h2] by blast
    then show ?thesis by simp
  qed
  ultimately show ?thesis
    using h1 h2 by (simp add: c0 nextKeys_samplePool)
qed


theorem geminiApiCall_fail_fast_witness:
  "currentKeyIndex freshExec < length samplePool
   \<and> alwaysThrows badRequest (GoogleGenAI (Some (samplePool ! currentKeyIndex freshExec)))
       (world freshExec) = (Inl badRequest, ())
   \<and> \<not> isRateLimitError badRequest
   \<and> fst (geminiApiCall samplePool (alwaysThrows badRequest) freshExec) = Inl badRequest
   \<and> attempts (snd (geminiApiCall samplePool (alwaysThrows badRequest) freshExec)) =
       [\<lparr>key = Some ''key-a'', index = 0\<rparr>]"
proof -
  have h1: "currentKeyIndex freshExec < length samplePool"
    by (simp add: freshExec_def samplePool_def)
  have h2: "alwaysThrows badRequest (GoogleGenAI (Some (samplePool ! currentKeyIndex freshExec)))
       (world freshExec) = (Inl badRequest, ())"
    by (simp add: alwaysThrows_def)
  show ?thesis
    using h1 h2 badRequest_classified geminiApiCall_fail_fast [where apiLogic = "alwaysThrows badRequest" and st = freshExec and apiKeys = samplePool and e = badRequest and w' = "()", OF h1 h2 badRequest_classified]
    by (simp add: freshExec_def samplePool_def)
qed


theorem geminiApiCall_exhausted_counterexample:
  "quotaError \<noteq> otherQuotaError
   \<and> isRateLimitError quotaError \<and> isRateLimitError otherQuotaError
   \<and> fst (geminiApiCall samplePool (alwaysThrows quotaError) freshExec) =
       fst (geminiApiCall samplePool (alwaysThrows otherQuotaError) freshExec)
   \<and> loadApiKeys (Some ''key-a'') [''key-a''] = Inr twinPool
   \<and> map key (attempts (snd (geminiApiCall twinPool (alwaysThrows quotaError) freshExec))) =
       [Some ''key-a'', Some ''key-a'']
   \<and> distinct pairPool
   \<and> map index (attempts (snd (geminiApiCallShared pairPool (alwaysThrows quotaError) [1]
                                 freshExec))) = [0, 0]
   \<and> map key (attempts (snd (geminiApiCallShared pairPool (alwaysThrows quotaError) [1]
                               freshExec))) = [Some ''key-a'', Some ''key-a'']"
proof -
  have a: "quotaError \<noteq> otherQuotaError" by (simp add: quotaError_def otherQuotaError_def)
  have q: "isRateLimitError quotaError" "isRateLimitError otherQuotaError"
    by (rule quotaError_classified, rule otherQuotaError_classified)
  have h1: "currentKeyIndex freshExec < length samplePool"
    by (simp add: freshExec_def samplePool_def)
  have h1': "currentKeyIndex freshExec < length twinPool"
    by (simp add: freshExec_def twinPool_def)
  have b: "fst (geminiApiCall samplePool (alwaysThrows quotaError) freshExec) =
       fst (geminiApiCall samplePool (alwaysThrows otherQuotaError) freshExec)"
    by (simp only: geminiApiCall_exhausted(1) [OF h1 rateLimitedOnPool_alwaysThrows [OF q(1)]]
        geminiApiCall_exhausted(1) [OF h1 rateLimitedOnPool_alwaysThrows [OF q(2)]])
  have d: "loadApiKeys (Some ''key-a'') [''key-a''] = Inr twinPool"
    by (simp add: loadApiKeys_def twinPool_def)
  have c0: "currentKeyIndex freshExec = 0" "attempts freshExec = []" by (simp_all add: freshExec_def)
  have e: "map key (attempts (snd (geminiApiCall twinPool (alwaysThrows quotaError) freshExec))) =
       [Some ''key-a'', Some ''key-a'']"
    using geminiApiCall_exhausted(2) [OF h1' rateLimitedOnPool_alwaysThrows [OF q(1)]]
    by (simp add: c0 nextKeys_twinPool)
  have f: "distinct pairPool" by (simp add: pairPool_def)
  have g: "map index (attempts (snd (geminiApiCallShared pairPool (alwaysThrows quotaError) [1]
                                 freshExec))) = [0, 0]"
    "map key (attempts (snd (geminiApiCallShared pairPool (alwaysThrows quotaError) [1]
                               freshExec))) = [Some ''key-a'', Some ''key-a'']"
    by (simp_all add: geminiApiCallShared_def getTotalKeys_def pairPool_def freshExec_def
        alwaysThrows_def getNextKey_def keyAt_def quotaError_classified)
  from a q b d e f g show ?thesis by blast
qed

section \<open>Properties of the generation pipeline\<close>


declare imageLoop.simps [simp del]

lemma length_mapIndexed: "length (mapIndexed f xs) = length xs"
  by (simp add: mapIndexed_def)

lemma nth_mapIndexed: "i < length xs \<Longrightarrow> mapIndexed f xs ! i = f (xs ! i) i"
  by (simp add: mapIndexed_def)

lemma mapIndexed_at:
  "i < length xs \<Longrightarrow> mapIndexed (\<lambda>p idx. if idx = i then g p else p) xs = xs[i := g (xs ! i)]"
  by (rule nth_equalityI) (auto simp: length_mapIndexed nth_mapIndexed nth_list_update)

lemma imageCallsOf_append: "imageCallsOf (xs @ ys) = imageCallsOf xs @ imageCallsOf ys"
  by (induction xs rule: imageCallsOf.induct) simp_all

lemma letteringCallsOf_append: "letteringCallsOf (xs @ ys) = letteringCallsOf xs @ letteringCallsOf ys"
  by (induction xs rule: letteringCallsOf.induct) simp_all

lemma pagesOf_update:
  "currentProject app \<noteq> None \<Longrightarrow> pagesOf (updateCurrentProject pages app) = pages"
  by (auto simp: pagesOf_def updateCurrentProject_def)

lemma project_update:
  "currentProject app \<noteq> None \<Longrightarrow> currentProject (updateCurrentProject pages app) \<noteq> None"
  by (auto simp: updateCurrentProject_def)

lemma events_update:
  "events (updateCurrentProject pages app) = events app @ [UpdateCurrentProject pages]"
  by (simp add: updateCurrentProject_def)

lemma flag_update:
  "generationCancelledRef (updateCurrentProject pages app) = generationCancelledRef app"
  by (simp add: updateCurrentProject_def)

subsection \<open>One iteration\<close>

lemma imageIteration_cancelled:
  assumes "generationCancelledRef (snd s)"
  shows "imageIteration env i s =
           ((mapIndexed (\<lambda>p idx.
                 if idx \<ge> i
                 then p\<lparr>isGenerating := Some False, generationFailed := Some True,
                        failureReason := Some ''Generation was cancelled.''\<rparr>
                 else p) (fst s),
             updateCurrentProject
               (mapIndexed (\<lambda>p idx.
                 if idx \<ge> i
                 then p\<lparr>isGenerating := Some False, generationFailed := Some True,
                        failureReason := Some ''Generation was cancelled.''\<rparr>
                 else p) (fst s)) (snd s)), True)"
  using assms by (simp add: imageIteration_def Let_def)

lemma imageIteration_success:
  assumes "\<not> generationCancelledRef (snd s)"
    and "generatePanelImageAt env i (description (fst s ! i)) (sfx (fst s ! i))
           (layout (fst s ! i)) (if i > 0 then image_js (fst s ! (i - 1)) else Undefined) = Inr panelImage"
  shows "imageIteration env i s =
           ((mapIndexed (\<lambda>p idx.
                 if idx = i
                 then p\<lparr>image_js := Value panelImage, isGenerating := Some False,
                        isLettering := Some True\<rparr>
                 else p) (fst s),
             updateCurrentProject
               (mapIndexed (\<lambda>p idx.
                 if idx = i
                 then p\<lparr>image_js := Value panelImage, isGenerating := Some False,
                        isLettering := Some True\<rparr>
                 else p) (fst s))
               (afterAwait (cancelRequested env (i + 1)) (startCall (GeneratePanelImage i) (snd s)))),
            False)"
  unfolding imageIteration_def Let_def using assms by (simp split del: if_split)

lemma imageIteration_failure:
  assumes "\<not> generationCancelledRef (snd s)"
    and "generatePanelImageAt env i (description (fst s ! i)) (sfx (fst s ! i))
           (layout (fst s ! i)) (if i > 0 then image_js (fst s ! (i - 1)) else Undefined) = Inl panelError"
  shows "imageIteration env i s =
           ((mapIndexed (\<lambda>p idx.
                 if idx = i
                 then p\<lparr>isGenerating := Some False, isLettering := Some False,
                        generationFailed := Some True,
                        failureReason := Some (failureReasonOf panelError), image_js := Null\<rparr>
                 else p) (fst s),
             updateCurrentProject
               (mapIndexed (\<lambda>p idx.
                 if idx = i
                 then p\<lparr>isGenerating := Some False, isLettering := Some False,
                        generationFailed := Some True,
                        failureReason := Some (failureReasonOf panelError), image_js := Null\<rparr>
                 else p) (fst s))
               (afterAwait (cancelRequested env (i + 1)) (startCall (GeneratePanelImage i) (snd s)))),
            False)"
  unfolding imageIteration_def Let_def using assms by (simp split del: if_split)

lemma imageIteration_cases:
  obtains (cancelled) "generationCancelledRef (snd s)"
  | (success) panelImage where "\<not> generationCancelledRef (snd s)"
      "generatePanelImageAt env i (description (fst s ! i)) (sfx (fst s ! i))
         (layout (fst s ! i)) (if i > 0 then image_js (fst s ! (i - 1)) else Undefined) = Inr panelImage"
  | (failure) panelError where "\<not> generationCancelledRef (snd s)"
      "generatePanelImageAt env i (description (fst s ! i)) (sfx (fst s ! i))
         (layout (fst s ! i)) (if i > 0 then image_js (fst s ! (i - 1)) else Undefined) = Inl panelError"
  by (cases "generationCancelledRef (snd s)";
      cases "generatePanelImageAt env i (description (fst s ! i)) (sfx (fst s ! i))
         (layout (fst s ! i)) (if i > 0 then image_js (fst s ! (i - 1)) else Undefined)") blast+

lemma flag_afterAwait:
  "generationCancelledRef (afterAwait pressed app) = (pressed \<or> generationCancelledRef app)"
  by (simp add: afterAwait_def handleCancelGeneration_def)

lemma project_afterAwait: "currentProject (afterAwait pressed app) = currentProject app"
  by (simp add: afterAwait_def handleCancelGeneration_def)

lemma events_afterAwait: "events (afterAwait pressed app) = events app"
  by (simp add: afterAwait_def handleCancelGeneration_def)

lemma imageIteration_length: "length (fst (fst (imageIteration env i s))) = length (fst s)"
  by (cases rule: imageIteration_cases [where s=s and env=env and i=i])
     (simp_all add: imageIteration_cancelled imageIteration_success imageIteration_failure
        length_mapIndexed)

lemma imageIteration_below:
  "j < length (fst s) \<Longrightarrow> j < i \<Longrightarrow> fst (fst (imageIteration env i s)) ! j = fst s ! j"
  by (cases rule: imageIteration_cases [where s=s and env=env and i=i])
     (simp_all add: imageIteration_cancelled imageIteration_success imageIteration_failure
        nth_mapIndexed)

lemma imageIteration_other:
  "\<not> generationCancelledRef (snd s) \<Longrightarrow> j < length (fst s) \<Longrightarrow> j \<noteq> i \<Longrightarrow>
   fst (fst (imageIteration env i s)) ! j = fst s ! j"
  by (cases rule: imageIteration_cases [where s=s and env=env and i=i])
     (simp_all add: imageIteration_success imageIteration_failure nth_mapIndexed)

lemma imageIteration_continues:
  "\<not> generationCancelledRef (snd s) \<Longrightarrow> \<not> snd (imageIteration env i s)"
  by (cases rule: imageIteration_cases [where s=s and env=env and i=i])
     (simp_all add: imageIteration_success imageIteration_failure)

lemma imageIteration_breaks:
  "generationCancelledRef (snd s) \<Longrightarrow> snd (imageIteration env i s)"
  by (simp add: imageIteration_cancelled)

lemma imageIteration_flag:
  "\<not> generationCancelledRef (snd s) \<Longrightarrow>
   generationCancelledRef (snd (fst (imageIteration env i s))) = cancelRequested env (i + 1)"
  by (cases rule: imageIteration_cases [where s=s and env=env and i=i])
     (simp_all add: imageIteration_success imageIteration_failure flag_update flag_afterAwait
        startCall_def)

lemma imageIteration_at:
  assumes "\<not> generationCancelledRef (snd s)" "i < length (fst s)"
  shows "fst (fst (imageIteration env i s)) ! i =
           (case generatePanelImageAt env i (description (fst s ! i)) (sfx (fst s ! i))
                   (layout (fst s ! i)) (if i > 0 then image_js (fst s ! (i - 1)) else Undefined) of
              Inr panelImage \<Rightarrow>
                (fst s ! i)\<lparr>image_js := Value panelImage, isGenerating := Some False,
                            isLettering := Some True\<rparr>
            | Inl panelError \<Rightarrow>
                (fst s ! i)\<lparr>isGenerating := Some False, isLettering := Some False,
                            generationFailed := Some True,
                            failureReason := Some (failureReasonOf panelError),
                            image_js := Null\<rparr>)"
  using assms
  by (cases rule: imageIteration_cases [where s=s and env=env and i=i])
     (simp_all add: imageIteration_success imageIteration_failure nth_mapIndexed
        split del: if_split)

lemma imageIteration_project:
  "currentProject (snd s) \<noteq> None \<Longrightarrow>
   currentProject (snd (fst (imageIteration env i s))) \<noteq> None \<and>
   pagesOf (snd (fst (imageIteration env i s))) = fst (fst (imageIteration env i s))"
  by (cases rule: imageIteration_cases [where s=s and env=env and i=i])
     (simp_all add: imageIteration_cancelled imageIteration_success imageIteration_failure
        pagesOf_update project_update project_afterAwait startCall_def)

lemma imageIteration_calls:
  "\<not> generationCancelledRef (snd s) \<Longrightarrow>
   imageCallsOf (events (snd (fst (imageIteration env i s)))) = imageCallsOf (events (snd s)) @ [i] \<and>
   letteringCallsOf (events (snd (fst (imageIteration env i s)))) = letteringCallsOf (events (snd s))"
  by (cases rule: imageIteration_cases [where s=s and env=env and i=i])
     (simp_all add: imageIteration_success imageIteration_failure events_update events_afterAwait
        startCall_def imageCallsOf_append letteringCallsOf_append)

lemma imageIteration_cancel_calls:
  "generationCancelledRef (snd s) \<Longrightarrow>
   imageCallsOf (events (snd (fst (imageIteration env i s)))) = imageCallsOf (events (snd s)) \<and>
   letteringCallsOf (events (snd (fst (imageIteration env i s)))) = letteringCallsOf (events (snd s)) \<and>
   generationCancelledRef (snd (fst (imageIteration env i s)))"
  by (simp add: imageIteration_cancelled events_update flag_update imageCallsOf_append
      letteringCallsOf_append)

lemma imageIteration_lettering:
  "j < length (fst s) \<Longrightarrow>
   lettering (fst (fst (imageIteration env i s)) ! j) = lettering (fst s ! j)"
  by (cases rule: imageIteration_cases [where s=s and env=env and i=i])
     (simp_all add: imageIteration_cancelled imageIteration_success imageIteration_failure
        nth_mapIndexed)

subsection \<open>The loop\<close>

lemma imageLoop_done: "\<not> i < n \<Longrightarrow> imageLoop env n i s = s"
  by (subst imageLoop.simps) simp

lemma imageLoop_break:
  "i < n \<Longrightarrow> generationCancelledRef (snd s) \<Longrightarrow> imageLoop env n i s = fst (imageIteration env i s)"
  by (subst imageLoop.simps) (simp add: imageIteration_breaks)

lemma imageLoop_step:
  "i < n \<Longrightarrow> \<not> generationCancelledRef (snd s) \<Longrightarrow>
   imageLoop env n i s = imageLoop env n (i + 1) (fst (imageIteration env i s))"
  by (subst imageLoop.simps) (simp add: imageIteration_continues)

lemma imageLoop_length: "length (fst (imageLoop env n i s)) = length (fst s)"
proof (induction env n i s rule: imageLoop.induct)
  case (1 env n i s)
  show ?case
  proof (cases "i < n")
    case False
    then show ?thesis by (simp add: imageLoop_done)
  next
    case True
    show ?thesis
    proof (cases "generationCancelledRef (snd s)")
      case True
      with \<open>i < n\<close> show ?thesis by (simp add: imageLoop_break imageIteration_length)
    next
      case False
      with \<open>i < n\<close> 1 show ?thesis
        by (simp add: imageLoop_step imageIteration_continues imageIteration_length)
    qed
  qed
qed

lemma imageLoop_below:
  "j < i \<Longrightarrow> j < length (fst s) \<Longrightarrow> fst (imageLoop env n i s) ! j = fst s ! j"
proof (induction env n i s rule: imageLoop.induct)
  case (1 env n i s)
  show ?case
  proof (cases "i < n")
    case False
    then show ?thesis by (simp add: imageLoop_done)
  next
    case True
    show ?thesis
    proof (cases "generationCancelledRef (snd s)")
      case True
      with \<open>i < n\<close> "1.prems" show ?thesis by (simp add: imageLoop_break imageIteration_below)
    next
      case False
      have "fst (imageLoop env n (i + 1) (fst (imageIteration env i s))) ! j =
            fst (fst (imageIteration env i s)) ! j"
        using "1.IH" [OF \<open>i < n\<close> imageIteration_continues [OF False]] "1.prems"
        by (simp add: imageIteration_length)
      then show ?thesis
        using False \<open>i < n\<close> "1.prems" by (simp add: imageLoop_step imageIteration_below)
    qed
  qed
qed

lemma imageLoop_project:
  "currentProject (snd s) \<noteq> None \<Longrightarrow> pagesOf (snd s) = fst s \<Longrightarrow>
   currentProject (snd (imageLoop env n i s)) \<noteq> None \<and>
   pagesOf (snd (imageLoop env n i s)) = fst (imageLoop env n i s)"
proof (induction env n i s rule: imageLoop.induct)
  case (1 env n i s)
  show ?case
  proof (cases "i < n")
    case False
    then show ?thesis using "1.prems" by (simp add: imageLoop_done)
  next
    case True
    show ?thesis
    proof (cases "generationCancelledRef (snd s)")
      case True
      with \<open>i < n\<close> "1.prems" show ?thesis by (simp add: imageLoop_break imageIteration_project)
    next
      case False
      show ?thesis
        using "1.IH" [OF \<open>i < n\<close> imageIteration_continues [OF False]]
          imageIteration_project [OF "1.prems"(1)] False \<open>i < n\<close>
        by (simp add: imageLoop_step)
    qed
  qed
qed

lemma imageLoop_lettering:
  "j < length (fst s) \<Longrightarrow> lettering (fst (imageLoop env n i s) ! j) = lettering (fst s ! j)"
proof (induction env n i s rule: imageLoop.induct)
  case (1 env n i s)
  show ?case
  proof (cases "i < n")
    case False
    then show ?thesis by (simp add: imageLoop_done)
  next
    case True
    show ?thesis
    proof (cases "generationCancelledRef (snd s)")
      case True
      with \<open>i < n\<close> "1.prems" show ?thesis by (simp add: imageLoop_break imageIteration_lettering)
    next
      case False
      show ?thesis
        using "1.IH" [OF \<open>i < n\<close> imageIteration_continues [OF False]] "1.prems" False \<open>i < n\<close>
        by (simp add: imageLoop_step imageIteration_length imageIteration_lettering)
    qed
  qed
qed


lemma imageLoop_calls_mono:
  "set (imageCallsOf (events (snd s))) \<subseteq> set (imageCallsOf (events (snd (imageLoop env n i s))))"
proof (induction env n i s rule: imageLoop.induct)
  case (1 env n i s)
  show ?case
  proof (cases "i < n")
    case False
    then show ?thesis by (simp add: imageLoop_done)
  next
    case True
    show ?thesis
    proof (cases "generationCancelledRef (snd s)")
      case True
      with \<open>i < n\<close> show ?thesis
        using imageIteration_cancel_calls [of s env i] by (simp add: imageLoop_break)
    next
      case False
      show ?thesis
        using "1.IH" [OF \<open>i < n\<close> imageIteration_continues [OF False]]
          imageIteration_calls [OF False, of env i] False \<open>i < n\<close>
        by (auto simp: imageLoop_step)
    qed
  qed
qed


text \<open>The page a panel becomes when its image call returns \<open>outcome\<close>.\<close>

lemma imageLoop_processed:
  assumes "d = j - i"
    and "generationCancelledRef (snd s) = cancelRequested env i"
    and "length (fst s) = n" and "i \<le> j" and "j < n"
    and "\<forall>k. i \<le> k \<and> k \<le> j \<longrightarrow> \<not> cancelRequested env k"
  shows "fst (imageLoop env n i s) ! j =
           (case generatePanelImageAt env j (description (fst s ! j)) (sfx (fst s ! j))
                   (layout (fst s ! j))
                   (if j > 0 then image_js (fst (imageLoop env n i s) ! (j - 1)) else Undefined) of
              Inr panelImage \<Rightarrow>
                (fst s ! j)\<lparr>image_js := Value panelImage, isGenerating := Some False,
                            isLettering := Some True\<rparr>
            | Inl panelError \<Rightarrow>
                (fst s ! j)\<lparr>isGenerating := Some False, isLettering := Some False,
                            generationFailed := Some True,
                            failureReason := Some (failureReasonOf panelError),
                            image_js := Null\<rparr>)
         \<and> j \<in> set (imageCallsOf (events (snd (imageLoop env n i s))))"
  using assms
proof (induction d arbitrary: i s)
  case 0
  then have ij: "i = j" by simp
  have nf: "\<not> generationCancelledRef (snd s)" using 0 by simp
  let ?s' = "fst (imageIteration env j s)"
  have step: "imageLoop env n j s = imageLoop env n (j + 1) ?s'"
    using imageLoop_step [OF \<open>j < n\<close>] nf ij by simp
  have len': "length (fst ?s') = n" using 0 by (simp add: imageIteration_length)
  have at: "fst (imageLoop env n (j + 1) ?s') ! j = fst ?s' ! j"
    by (rule imageLoop_below) (use len' \<open>j < n\<close> in simp_all)
  have prev: "0 < j \<Longrightarrow> fst (imageLoop env n (j + 1) ?s') ! (j - 1) = fst s ! (j - 1)"
  proof -
    assume "0 < j"
    then have "fst (imageLoop env n (j + 1) ?s') ! (j - 1) = fst ?s' ! (j - 1)"
      using len' \<open>j < n\<close> by (intro imageLoop_below) simp_all
    also have "\<dots> = fst s ! (j - 1)"
      using \<open>0 < j\<close> \<open>j < n\<close> 0 by (intro imageIteration_below) simp_all
    finally show ?thesis .
  qed
  have prev_eq: "(if j > 0 then image_js (fst (imageLoop env n (j + 1) ?s') ! (j - 1)) else Undefined) =
                 (if j > 0 then image_js (fst s ! (j - 1)) else Undefined)"
    using prev by simp
  have page: "fst ?s' ! j =
           (case generatePanelImageAt env j (description (fst s ! j)) (sfx (fst s ! j))
                   (layout (fst s ! j)) (if j > 0 then image_js (fst s ! (j - 1)) else Undefined) of
              Inr panelImage \<Rightarrow>
                (fst s ! j)\<lparr>image_js := Value panelImage, isGenerating := Some False,
                            isLettering := Some True\<rparr>
            | Inl panelError \<Rightarrow>
                (fst s ! j)\<lparr>isGenerating := Some False, isLettering := Some False,
                            generationFailed := Some True,
                            failureReason := Some (failureReasonOf panelError),
                            image_js := Null\<rparr>)"
    by (rule imageIteration_at) (use nf 0 in simp_all)
  have calls: "j \<in> set (imageCallsOf (events (snd ?s')))"
    using imageIteration_calls [OF nf, of env j] by simp
  have mono: "set (imageCallsOf (events (snd ?s'))) \<subseteq>
              set (imageCallsOf (events (snd (imageLoop env n (j + 1) ?s'))))"
    by (rule imageLoop_calls_mono)
  show ?case
    unfolding ij step using at page calls mono by (simp only: prev_eq) blast
next
  case (Suc d)
  then have lt: "i < j" and "i < n" by simp_all
  have nf: "\<not> generationCancelledRef (snd s)" using Suc.prems by simp
  let ?s' = "fst (imageIteration env i s)"
  have step: "imageLoop env n i s = imageLoop env n (i + 1) ?s'"
    using imageLoop_step [OF \<open>i < n\<close> nf] .
  have len': "length (fst ?s') = n" using Suc.prems by (simp add: imageIteration_length)
  have flag': "generationCancelledRef (snd ?s') = cancelRequested env (i + 1)"
    using nf by (rule imageIteration_flag)
  have same: "fst ?s' ! j = fst s ! j"
    using nf Suc.prems lt by (intro imageIteration_other) simp_all
  have "fst (imageLoop env n (i + 1) ?s') ! j =
           (case generatePanelImageAt env j (description (fst ?s' ! j)) (sfx (fst ?s' ! j))
                   (layout (fst ?s' ! j))
                   (if j > 0 then image_js (fst (imageLoop env n (i + 1) ?s') ! (j - 1)) else Undefined) of
              Inr panelImage \<Rightarrow>
                (fst ?s' ! j)\<lparr>image_js := Value panelImage, isGenerating := Some False,
                            isLettering := Some True\<rparr>
            | Inl panelError \<Rightarrow>
                (fst ?s' ! j)\<lparr>isGenerating := Some False, isLettering := Some False,
                            generationFailed := Some True,
                            failureReason := Some (failureReasonOf panelError),
                            image_js := Null\<rparr>)
         \<and> j \<in> set (imageCallsOf (events (snd (imageLoop env n (i + 1) ?s'))))"
    by (rule Suc.IH) (use Suc.prems lt flag' len' in auto)
  then show ?case unfolding step same .
qed


lemma imageLoop_cancel:
  assumes "d = c - i"
    and "generationCancelledRef (snd s) = cancelRequested env i"
    and "length (fst s) = n" and "i \<le> c" and "c < n"
    and "\<forall>k. i \<le> k \<and> k < c \<longrightarrow> \<not> cancelRequested env k"
    and "cancelRequested env c"
  shows "(\<forall>j. c \<le> j \<and> j < n \<longrightarrow>
            fst (imageLoop env n i s) ! j =
              (fst s ! j)\<lparr>isGenerating := Some False, generationFailed := Some True,
                          failureReason := Some ''Generation was cancelled.''\<rparr>)
       \<and> generationCancelledRef (snd (imageLoop env n i s))
       \<and> imageCallsOf (events (snd (imageLoop env n i s))) = imageCallsOf (events (snd s)) @ [i..<c]
       \<and> letteringCallsOf (events (snd (imageLoop env n i s))) = letteringCallsOf (events (snd s))"
  using assms
proof (induction d arbitrary: i s)
  case 0
  then have ic: "i = c" by simp
  have fl: "generationCancelledRef (snd s)" using 0 by simp
  have brk: "imageLoop env n c s = fst (imageIteration env c s)"
    using imageLoop_break [OF \<open>c < n\<close>] fl ic by simp
  have pages: "\<forall>j. c \<le> j \<and> j < n \<longrightarrow>
            fst (fst (imageIteration env c s)) ! j =
              (fst s ! j)\<lparr>isGenerating := Some False, generationFailed := Some True,
                          failureReason := Some ''Generation was cancelled.''\<rparr>"
    using 0 by (simp add: imageIteration_cancelled [OF fl] nth_mapIndexed)
  show ?case
    unfolding ic brk using pages imageIteration_cancel_calls [OF fl, of env c] by simp
next
  case (Suc d)
  then have lt: "i < c" and "i < n" by simp_all
  have nf: "\<not> generationCancelledRef (snd s)" using Suc.prems lt by simp
  let ?s' = "fst (imageIteration env i s)"
  have step: "imageLoop env n i s = imageLoop env n (i + 1) ?s'"
    using imageLoop_step [OF \<open>i < n\<close> nf] .
  have len': "length (fst ?s') = n" using Suc.prems by (simp add: imageIteration_length)
  have flag': "generationCancelledRef (snd ?s') = cancelRequested env (i + 1)"
    using nf by (rule imageIteration_flag)
  have same: "\<And>j. c \<le> j \<Longrightarrow> j < n \<Longrightarrow> fst ?s' ! j = fst s ! j"
    using nf Suc.prems lt by (intro imageIteration_other) simp_all
  have ih: "(\<forall>j. c \<le> j \<and> j < n \<longrightarrow>
            fst (imageLoop env n (i + 1) ?s') ! j =
              (fst ?s' ! j)\<lparr>isGenerating := Some False, generationFailed := Some True,
                          failureReason := Some ''Generation was cancelled.''\<rparr>)
       \<and> generationCancelledRef (snd (imageLoop env n (i + 1) ?s'))
       \<and> imageCallsOf (events (snd (imageLoop env n (i + 1) ?s'))) =
           imageCallsOf (events (snd ?s')) @ [i + 1..<c]
       \<and> letteringCallsOf (events (snd (imageLoop env n (i + 1) ?s'))) =
           letteringCallsOf (events (snd ?s'))"
    by (rule Suc.IH) (use Suc.prems lt flag' len' in auto)
  have upt: "[i] @ [i + 1..<c] = [i..<c]" using lt by (simp add: upt_conv_Cons)
  show ?case
    unfolding step using ih same imageIteration_calls [OF nf, of env i] upt by simp
qed

lemma imageLoop_complete:
  assumes "d = n - i"
    and "generationCancelledRef (snd s) = cancelRequested env i"
    and "i \<le> n"
    and "\<forall>k. i \<le> k \<and> k < n \<longrightarrow> \<not> cancelRequested env k"
  shows "generationCancelledRef (snd (imageLoop env n i s)) = cancelRequested env n
       \<and> imageCallsOf (events (snd (imageLoop env n i s))) = imageCallsOf (events (snd s)) @ [i..<n]
       \<and> letteringCallsOf (events (snd (imageLoop env n i s))) = letteringCallsOf (events (snd s))"
  using assms
proof (induction d arbitrary: i s)
  case 0
  then have "i = n" by simp
  then show ?case using 0 by (simp add: imageLoop_done)
next
  case (Suc d)
  then have "i < n" by simp
  have nf: "\<not> generationCancelledRef (snd s)" using Suc.prems \<open>i < n\<close> by simp
  let ?s' = "fst (imageIteration env i s)"
  have step: "imageLoop env n i s = imageLoop env n (i + 1) ?s'"
    using imageLoop_step [OF \<open>i < n\<close> nf] .
  have flag': "generationCancelledRef (snd ?s') = cancelRequested env (i + 1)"
    using nf by (rule imageIteration_flag)
  have ih: "generationCancelledRef (snd (imageLoop env n (i + 1) ?s')) = cancelRequested env n
       \<and> imageCallsOf (events (snd (imageLoop env n (i + 1) ?s'))) =
           imageCallsOf (events (snd ?s')) @ [i + 1..<n]
       \<and> letteringCallsOf (events (snd (imageLoop env n (i + 1) ?s'))) =
           letteringCallsOf (events (snd ?s'))"
    by (rule Suc.IH) (use Suc.prems \<open>i < n\<close> flag' in auto)
  have upt: "[i] @ [i + 1..<n] = [i..<n]" using \<open>i < n\<close> by (simp add: upt_conv_Cons)
  show ?case
    unfolding step using ih imageIteration_calls [OF nf, of env i] upt by simp
qed

subsection \<open>Promise.all and the merge\<close>

lemma slots_fold:
  "length slots = n \<Longrightarrow>
   length (fold (\<lambda>k slots. if k < length slots then slots[k := Some (promises ! k)] else slots)
             order slots) = n
   \<and> (\<forall>j<n. fold (\<lambda>k slots. if k < length slots then slots[k := Some (promises ! k)] else slots)
               order slots ! j =
             (if j \<in> set order then Some (promises ! j) else slots ! j))"
proof (induction order arbitrary: slots)
  case Nil
  then show ?case by simp
next
  case (Cons k order)
  let ?slots' = "if k < length slots then slots[k := Some (promises ! k)] else slots"
  have len: "length ?slots' = n" using Cons.prems by simp
  show ?case
    using Cons.IH [OF len] Cons.prems by (auto simp: nth_list_update)
qed

lemma promiseAll_settled:
  assumes "{0..<length promises} \<subseteq> set order"
  shows "promiseAll order promises = Some promises"
proof -
  let ?f = "\<lambda>k slots. if k < length slots then slots[k := Some (promises ! k)] else slots"
  let ?slots = "fold ?f order (replicate (length promises) None)"
  have sl: "length ?slots = length promises \<and>
        (\<forall>j<length promises. ?slots ! j =
           (if j \<in> set order then Some (promises ! j) else replicate (length promises) None ! j))"
    by (rule slots_fold) simp
  then have len: "length ?slots = length promises" by blast
  have nth: "\<And>j. j < length promises \<Longrightarrow> ?slots ! j = Some (promises ! j)"
    using sl assms by auto
  have eq: "?slots = map Some promises"
    by (rule nth_equalityI) (simp_all add: len nth)
  show ?thesis
    unfolding promiseAll_def Let_def eq by (simp add: list_all_iff comp_def)
qed

lemma letteringPromise_index:
  "letteringPromise env pg i = Some r \<Longrightarrow> resultIndex r = i"
  by (auto simp: letteringPromise_def split: nullable.splits if_splits sum.splits)

lemma letteringPromise_page:
  "(case letteringPromise env pg i of
      None \<Rightarrow> pg
    | Some r \<Rightarrow> pg\<lparr>lettering := resultLettering r, isLettering := Some False\<rparr>) =
   letteredPage env pg i"
  by (cases "image_js pg"; cases "generationFailed pg")
     (auto simp: letteringPromise_def letteredPage_def split: sum.splits)

lemma merge_prefix:
  assumes "k \<le> length pages"
  shows "fold (\<lambda>result finalPages.
            case result of
              None \<Rightarrow> finalPages
            | Some r \<Rightarrow>
                finalPages[resultIndex r :=
                  (finalPages ! resultIndex r)\<lparr>lettering := resultLettering r, isLettering := Some False\<rparr>])
           (take k (mapIndexed (letteringPromise env) pages)) pages =
         mapIndexed (\<lambda>p i. if i < k then letteredPage env p i else p) pages"
  using assms
proof (induction k)
  case 0
  show ?case by (rule nth_equalityI) (simp_all add: length_mapIndexed nth_mapIndexed)
next
  case (Suc k)
  let ?rs = "mapIndexed (letteringPromise env) pages"
  let ?acc = "mapIndexed (\<lambda>p i. if i < k then letteredPage env p i else p) pages"
  have k: "k < length pages" using Suc.prems by simp
  have take: "take (Suc k) ?rs = take k ?rs @ [letteringPromise env (pages ! k) k]"
    using k by (simp add: take_Suc_conv_app_nth length_mapIndexed nth_mapIndexed)
  have acck: "?acc ! k = pages ! k" using k by (simp add: nth_mapIndexed)
  show ?case
  proof (cases "letteringPromise env (pages ! k) k")
    case None
    have "letteredPage env (pages ! k) k = pages ! k"
      using letteringPromise_page [where env=env and pg="pages ! k" and i=k] None by simp
    then have "mapIndexed (\<lambda>p i. if i < Suc k then letteredPage env p i else p) pages = ?acc"
      by (intro nth_equalityI) (auto simp: length_mapIndexed nth_mapIndexed less_Suc_eq)
    then show ?thesis using Suc.IH k None by (simp add: take)
  next
    case (Some r)
    have idx: "resultIndex r = k" using Some by (rule letteringPromise_index)
    have lp: "letteredPage env (pages ! k) k =
              (pages ! k)\<lparr>lettering := resultLettering r, isLettering := Some False\<rparr>"
      using letteringPromise_page [where env=env and pg="pages ! k" and i=k] Some by simp
    have "?acc[k := (?acc ! k)\<lparr>lettering := resultLettering r, isLettering := Some False\<rparr>] =
          mapIndexed (\<lambda>p i. if i < Suc k then letteredPage env p i else p) pages"
      by (rule nth_equalityI)
         (auto simp: length_mapIndexed nth_mapIndexed nth_list_update acck lp less_Suc_eq)
    then show ?thesis using Suc.IH k Some by (simp add: take idx)
  qed
qed

lemma mergeLettering_all:
  "mergeLettering (mapIndexed (letteringPromise env) pages) pages = mapIndexed (letteredPage env) pages"
proof -
  have "take (length pages) (mapIndexed (letteringPromise env) pages) =
        mapIndexed (letteringPromise env) pages"
    by (simp add: length_mapIndexed)
  moreover have "mapIndexed (\<lambda>p i. if i < length pages then letteredPage env p i else p) pages =
        mapIndexed (letteredPage env) pages"
    by (rule nth_equalityI) (simp_all add: length_mapIndexed nth_mapIndexed)
  ultimately show ?thesis
    unfolding mergeLettering_def using merge_prefix [of "length pages" pages env] by simp
qed

lemma letteringStage_settled:
  assumes "{0..<length pages} \<subseteq> set (settleOrder env)"
  shows "letteringStage env pages app =
           (updateCurrentProject (mapIndexed (letteredPage env) pages)
              (app\<lparr>events := events app @ letteringCalls pages\<rparr>))\<lparr>generationCancelledRef := False\<rparr>"
proof -
  have "promiseAll (settleOrder env) (mapIndexed (letteringPromise env) pages) =
        Some (mapIndexed (letteringPromise env) pages)"
    by (rule promiseAll_settled) (use assms in \<open>simp add: length_mapIndexed\<close>)
  then show ?thesis
    by (simp add: letteringStage_def Let_def mergeLettering_all)
qed


subsection \<open>The handler as a whole\<close>

lemma scriptAwaited_facts:
  "generationCancelledRef (scriptAwaited env app0) = cancelRequested env 0"
  "currentProject (scriptAwaited env app0) = currentProject app0"
  "events (scriptAwaited env app0) = events app0 @ [GenerateStory]"
  by (simp_all add: scriptAwaited_def flag_afterAwait project_afterAwait events_afterAwait
      startCall_def)

lemma length_initialPages: "length (initialPages gp) = length gp"
  by (simp add: initialPages_def)

lemma handleGenerateStory_script:
  assumes "currentProject app0 = Some project" "generateStory env = Inr gp"
  shows "handleGenerateStory env app0 =
           (if generationCancelledRef (snd (imageStage env gp (scriptAwaited env app0)))
            then (snd (imageStage env gp (scriptAwaited env app0)))\<lparr>generationCancelledRef := False\<rparr>
            else letteringStage env (fst (imageStage env gp (scriptAwaited env app0)))
                   (snd (imageStage env gp (scriptAwaited env app0))))"
  using assms by (simp add: handleGenerateStory_def Let_def)

lemma imageStage_start:
  "imageStage env gp app =
     imageLoop env (length gp) 0 (initialPages gp, updateCurrentProject (initialPages gp) app)"
  by (simp add: imageStage_def Let_def)

lemma imageStage_project:
  assumes "currentProject app \<noteq> None"
  shows "currentProject (snd (imageStage env gp app)) \<noteq> None"
    and "pagesOf (snd (imageStage env gp app)) = fst (imageStage env gp app)"
  using imageLoop_project [of "(initialPages gp, updateCurrentProject (initialPages gp) app)" env "length gp" 0]
    assms
  by (simp_all add: imageStage_start project_update pagesOf_update)

lemma pagesOf_flag: "pagesOf (app\<lparr>generationCancelledRef := b\<rparr>) = pagesOf app"
  by (simp add: pagesOf_def)

text \<open>
  C3. Let cancel be pressed so that the flag is first seen set at the head of the iteration
  for panel c (it was clear at the head of every earlier iteration). Then in the state
  handleGenerateStory leaves, every panel from c on is the initialised panel with
  isGenerating false, generationFailed true and the reason "Generation was cancelled.";
  every panel before c is as its own image call left it, with the image that call
  returned when it succeeded; image calls were started for the panels before c only; and
  no lettering call was started.
\<close>

theorem cancellation_stops_pipeline:
  assumes "currentProject app0 = Some project"
    and "generateStory env = Inr generatedPages"
    and "c < length generatedPages"
    and "\<forall>k<c. \<not> cancelRequested env k"
    and "cancelRequested env c"
  shows "length (pagesOf (handleGenerateStory env app0)) = length generatedPages
       \<and> (\<forall>j. c \<le> j \<and> j < length generatedPages \<longrightarrow>
             pagesOf (handleGenerateStory env app0) ! j =
               (initialPages generatedPages ! j)
                 \<lparr>isGenerating := Some False, generationFailed := Some True,
                   failureReason := Some ''Generation was cancelled.''\<rparr>)
       \<and> (\<forall>j<c.
             pagesOf (handleGenerateStory env app0) ! j =
               (case generatePanelImageAt env j (description (initialPages generatedPages ! j))
                       (sfx (initialPages generatedPages ! j)) (layout (initialPages generatedPages ! j))
                       (if j > 0 then image_js (pagesOf (handleGenerateStory env app0) ! (j - 1))
                        else Undefined) of
                  Inr panelImage \<Rightarrow>
                    (initialPages generatedPages ! j)
                      \<lparr>image_js := Value panelImage, isGenerating := Some False,
                        isLettering := Some True\<rparr>
                | Inl panelError \<Rightarrow>
                    (initialPages generatedPages ! j)
                      \<lparr>isGenerating := Some False, isLettering := Some False,
                        generationFailed := Some True,
                        failureReason := Some (failureReasonOf panelError), image_js := Null\<rparr>))
       \<and> imageCallsOf (events (handleGenerateStory env app0)) = imageCallsOf (events app0) @ [0..<c]
       \<and> letteringCallsOf (events (handleGenerateStory env app0)) = letteringCallsOf (events app0)"
proof -
  let ?n = "length generatedPages"
  let ?app1 = "scriptAwaited env app0"
  let ?s0 = "(initialPages generatedPages, updateCurrentProject (initialPages generatedPages) ?app1)"
  let ?r = "imageLoop env ?n 0 ?s0"
  have flag0: "generationCancelledRef (snd ?s0) = cancelRequested env 0"
    by (simp add: flag_update scriptAwaited_facts)
  have len0: "length (fst ?s0) = ?n" by (simp add: length_initialPages)
  have canc: "(\<forall>j. c \<le> j \<and> j < ?n \<longrightarrow>
            fst ?r ! j =
              (fst ?s0 ! j)\<lparr>isGenerating := Some False, generationFailed := Some True,
                          failureReason := Some ''Generation was cancelled.''\<rparr>)
       \<and> generationCancelledRef (snd ?r)
       \<and> imageCallsOf (events (snd ?r)) = imageCallsOf (events (snd ?s0)) @ [0..<c]
       \<and> letteringCallsOf (events (snd ?r)) = letteringCallsOf (events (snd ?s0))"
    by (rule imageLoop_cancel [OF refl flag0 len0]) (use assms in auto)
  have proj: "currentProject ?app1 \<noteq> None" using assms(1) by (simp add: scriptAwaited_facts)
  have whole: "handleGenerateStory env app0 = (snd ?r)\<lparr>generationCancelledRef := False\<rparr>"
    using handleGenerateStory_script [OF assms(1,2)] canc by (simp add: imageStage_start)
  have pages: "pagesOf (handleGenerateStory env app0) = fst ?r"
    using imageStage_project(2) [OF proj, of env generatedPages]
    by (simp add: whole pagesOf_flag imageStage_start)
  have a: "length (fst ?r) = ?n" by (simp add: imageLoop_length length_initialPages)
  have b: "\<forall>j<c.
             fst ?r ! j =
               (case generatePanelImageAt env j (description (initialPages generatedPages ! j))
                       (sfx (initialPages generatedPages ! j)) (layout (initialPages generatedPages ! j))
                       (if j > 0 then image_js (fst ?r ! (j - 1)) else Undefined) of
                  Inr panelImage \<Rightarrow>
                    (initialPages generatedPages ! j)
                      \<lparr>image_js := Value panelImage, isGenerating := Some False,
                        isLettering := Some True\<rparr>
                | Inl panelError \<Rightarrow>
                    (initialPages generatedPages ! j)
                      \<lparr>isGenerating := Some False, isLettering := Some False,
                        generationFailed := Some True,
                        failureReason := Some (failureReasonOf panelError), image_js := Null\<rparr>)"
  proof (intro allI impI)
    fix j assume "j < c"
    have "fst ?r ! j =
               (case generatePanelImageAt env j (description (fst ?s0 ! j))
                       (sfx (fst ?s0 ! j)) (layout (fst ?s0 ! j))
                       (if j > 0 then image_js (fst ?r ! (j - 1)) else Undefined) of
                  Inr panelImage \<Rightarrow>
                    (fst ?s0 ! j)
                      \<lparr>image_js := Value panelImage, isGenerating := Some False,
                        isLettering := Some True\<rparr>
                | Inl panelError \<Rightarrow>
                    (fst ?s0 ! j)
                      \<lparr>isGenerating := Some False, isLettering := Some False,
                        generationFailed := Some True,
                        failureReason := Some (failureReasonOf panelError), image_js := Null\<rparr>)
         \<and> j \<in> set (imageCallsOf (events (snd ?r)))"
      by (rule imageLoop_processed [OF refl flag0 len0]) (use assms(3,4) \<open>j < c\<close> in auto)
    then show "fst ?r ! j =
               (case generatePanelImageAt env j (description (initialPages generatedPages ! j))
                       (sfx (initialPages generatedPages ! j)) (layout (initialPages generatedPages ! j))
                       (if j > 0 then image_js (fst ?r ! (j - 1)) else Undefined) of
                  Inr panelImage \<Rightarrow>
                    (initialPages generatedPages ! j)
                      \<lparr>image_js := Value panelImage, isGenerating := Some False,
                        isLettering := Some True\<rparr>
                | Inl panelError \<Rightarrow>
                    (initialPages generatedPages ! j)
                      \<lparr>isGenerating := Some False, isLettering := Some False,
                        generationFailed := Some True,
                        failureReason := Some (failureReasonOf panelError), image_js := Null\<rparr>)"
      by (simp only: fst_conv)
  qed
  have ev: "imageCallsOf (events (snd ?s0)) = imageCallsOf (events app0)"
       "letteringCallsOf (events (snd ?s0)) = letteringCallsOf (events app0)"
    by (simp_all add: events_update scriptAwaited_facts imageCallsOf_append letteringCallsOf_append)
  show ?thesis
    unfolding pages using a b canc ev by (simp add: whole)
qed

text \<open>
  C6. When the flag is clear at the head of iteration i and the image call for panel i
  throws, the iteration changes panel i alone, to isGenerating false, isLettering false,
  generationFailed true, the reason derived from the error (the error's own user-friendly
  message when it is a GeminiApiError, the text "An unknown error occurred." for any
  other thrown value) and image null; it does
  not leave the loop, which goes on with panel i + 1; panel i stays as the iteration left
  it to the end of the loop; and when panel i + 1 exists and cancel was not pressed
  meanwhile, its image call is started.
\<close>

theorem panel_failure_isolated:
  assumes "\<not> generationCancelledRef (snd s)"
    and "length (fst s) = n" and "i < n"
    and "generatePanelImageAt env i (description (fst s ! i)) (sfx (fst s ! i)) (layout (fst s ! i))
           (if i > 0 then image_js (fst s ! (i - 1)) else Undefined) = Inl panelError"
  shows "fst (fst (imageIteration env i s)) =
           (fst s)[i := (fst s ! i)\<lparr>isGenerating := Some False, isLettering := Some False,
                                    generationFailed := Some True,
                                    failureReason :=
                                      Some (case panelError of
                                         GeminiApiError msg userFriendlyMessage \<Rightarrow> userFriendlyMessage
                                       | _ \<Rightarrow> ''An unknown error occurred.''),
                                    image_js := Null\<rparr>]
       \<and> \<not> snd (imageIteration env i s)
       \<and> imageLoop env n i s = imageLoop env n (i + 1) (fst (imageIteration env i s))
       \<and> fst (imageLoop env n i s) ! i =
           (fst s ! i)\<lparr>isGenerating := Some False, isLettering := Some False,
                       generationFailed := Some True,
                       failureReason :=
                                      Some (case panelError of
                                         GeminiApiError msg userFriendlyMessage \<Rightarrow> userFriendlyMessage
                                       | _ \<Rightarrow> ''An unknown error occurred.''), image_js := Null\<rparr>
       \<and> (i + 1 < n \<and> \<not> cancelRequested env (i + 1) \<longrightarrow>
            i + 1 \<in> set (imageCallsOf (events (snd (imageLoop env n i s)))))"
proof -
  let ?s' = "fst (imageIteration env i s)"
  have il: "i < length (fst s)" using assms by simp
  have a: "fst ?s' = (fst s)[i := (fst s ! i)\<lparr>isGenerating := Some False, isLettering := Some False,
                                    generationFailed := Some True,
                                    failureReason := Some (failureReasonOf panelError),
                                    image_js := Null\<rparr>]"
    by (simp add: imageIteration_failure [OF assms(1,4)] mapIndexed_at [OF il])
  have b: "\<not> snd (imageIteration env i s)" using assms(1) by (rule imageIteration_continues)
  have c: "imageLoop env n i s = imageLoop env n (i + 1) ?s'"
    using assms(3,1) by (rule imageLoop_step)
  have len': "length (fst ?s') = n" using assms(2) by (simp add: imageIteration_length)
  have "fst (imageLoop env n (i + 1) ?s') ! i = fst ?s' ! i"
    by (rule imageLoop_below) (use len' assms(3) in simp_all)
  then have d: "fst (imageLoop env n i s) ! i =
           (fst s ! i)\<lparr>isGenerating := Some False, isLettering := Some False,
                       generationFailed := Some True,
                       failureReason := Some (failureReasonOf panelError), image_js := Null\<rparr>"
    using il by (simp add: c a)
  have e: "i + 1 < n \<and> \<not> cancelRequested env (i + 1) \<longrightarrow>
            i + 1 \<in> set (imageCallsOf (events (snd (imageLoop env n i s))))"
  proof
    assume h: "i + 1 < n \<and> \<not> cancelRequested env (i + 1)"
    have flag': "generationCancelledRef (snd ?s') = cancelRequested env (i + 1)"
      using assms(1) by (rule imageIteration_flag)
    have "i + 1 \<in> set (imageCallsOf (events (snd (imageLoop env n (i + 1) ?s'))))"
      by (rule imageLoop_processed [OF refl flag' len', THEN conjunct2]) (use h in auto)
    then show "i + 1 \<in> set (imageCallsOf (events (snd (imageLoop env n i s))))"
      by (simp only: c)
  qed
  show ?thesis using a b c d e unfolding failureReasonOf_def by blast
qed


theorem cancellation_stops_pipeline_witness:
  "length (pagesOf (handleGenerateStory cancelledServices emptyApp)) = 3
   \<and> image_js (pagesOf (handleGenerateStory cancelledServices emptyApp) ! 0) =
       Value ''data:image/png;base64,AAAA''
   \<and> generationFailed (pagesOf (handleGenerateStory cancelledServices emptyApp) ! 0) = Some False
   \<and> generationFailed (pagesOf (handleGenerateStory cancelledServices emptyApp) ! 1) = Some True
   \<and> isGenerating (pagesOf (handleGenerateStory cancelledServices emptyApp) ! 1) = Some False
   \<and> failureReason (pagesOf (handleGenerateStory cancelledServices emptyApp) ! 2) =
       Some ''Generation was cancelled.''
   \<and> imageCallsOf (events (handleGenerateStory cancelledServices emptyApp)) = [0]
   \<and> letteringCallsOf (events (handleGenerateStory cancelledServices emptyApp)) = []"
proof -
  have h1: "currentProject emptyApp = Some \<lparr>storyPages = []\<rparr>" by (simp add: emptyApp_def)
  have h2: "generateStory cancelledServices = Inr sampleScript"
    by (simp add: cancelledServices_def sampleServices_def)
  have h3: "1 < length sampleScript" by (simp add: sampleScript_def)
  have h4: "\<forall>k<1. \<not> cancelRequested cancelledServices k"
    by (simp add: cancelledServices_def pressedDuring_def)
  have h5: "cancelRequested cancelledServices 1"
    by (simp add: cancelledServices_def pressedDuring_def)
  note th = cancellation_stops_pipeline [OF h1 h2 h3 h4 h5]
  have ev: "events emptyApp = []" by (simp add: emptyApp_def)
  have init: "initialPages sampleScript ! 0 =
                (samplePage 1)\<lparr>isGenerating := Some True, lettering := Null, generationFailed := Some False\<rparr>"
    "initialPages sampleScript ! 1 =
                (samplePage 2)\<lparr>isGenerating := Some True, lettering := Null, generationFailed := Some False\<rparr>"
    "initialPages sampleScript ! 2 =
                (samplePage 3)\<lparr>isGenerating := Some True, lettering := Null, generationFailed := Some False\<rparr>"
    by (simp_all add: initialPages_def sampleScript_def)
  have gen: "generatePanelImageAt cancelledServices = sampleImage"
    by (simp add: cancelledServices_def sampleServices_def)
  have a: "length (pagesOf (handleGenerateStory cancelledServices emptyApp)) = 3"
    using th by (simp add: sampleScript_def)
  have p0: "pagesOf (handleGenerateStory cancelledServices emptyApp) ! 0 =
              (initialPages sampleScript ! 0)\<lparr>image_js := Value ''data:image/png;base64,AAAA'',
                 isGenerating := Some False, isLettering := Some True\<rparr>"
    using th [THEN conjunct2, THEN conjunct2, THEN conjunct1, rule_format, of 0]
    by (simp add: gen sampleImage_def)
  have p1: "pagesOf (handleGenerateStory cancelledServices emptyApp) ! 1 =
              (initialPages sampleScript ! 1)\<lparr>isGenerating := Some False, generationFailed := Some True,
                 failureReason := Some ''Generation was cancelled.''\<rparr>"
    using th [THEN conjunct2, THEN conjunct1, rule_format, of 1] by (simp add: sampleScript_def)
  have p2: "pagesOf (handleGenerateStory cancelledServices emptyApp) ! 2 =
              (initialPages sampleScript ! 2)\<lparr>isGenerating := Some False, generationFailed := Some True,
                 failureReason := Some ''Generation was cancelled.''\<rparr>"
    using th [THEN conjunct2, THEN conjunct1, rule_format, of 2] by (simp add: sampleScript_def)
  have calls: "imageCallsOf (events (handleGenerateStory cancelledServices emptyApp)) = [0]"
    "letteringCallsOf (events (handleGenerateStory cancelledServices emptyApp)) = []"
    using th by (simp_all add: ev)
  show ?thesis
    using a p0 p1 p2 calls init by simp
qed


theorem panel_failure_isolated_witness:
  "fst (fst (imageIteration failingServices 1 (initialPages sampleScript, emptyApp))) ! 0 =
     initialPages sampleScript ! 0
   \<and> fst (fst (imageIteration failingServices 1 (initialPages sampleScript, emptyApp))) ! 2 =
       initialPages sampleScript ! 2
   \<and> \<not> snd (imageIteration failingServices 1 (initialPages sampleScript, emptyApp))
   \<and> generationFailed (fst (imageLoop failingServices 3 1 (initialPages sampleScript, emptyApp)) ! 1) =
       Some True
   \<and> failureReason (fst (imageLoop failingServices 3 1 (initialPages sampleScript, emptyApp)) ! 1) =
       Some ''The panel generation was blocked, possibly due to a content safety filter. Please try regenerating or modifying the story.''
   \<and> image_js (fst (imageLoop failingServices 3 1 (initialPages sampleScript, emptyApp)) ! 1) = Null
   \<and> isGenerating (fst (imageLoop failingServices 3 1 (initialPages sampleScript, emptyApp)) ! 1) =
       Some False
   \<and> 2 \<in> set (imageCallsOf (events (snd (imageLoop failingServices 3 1
                                          (initialPages sampleScript, emptyApp)))))"
proof -
  let ?s = "(initialPages sampleScript, emptyApp)"
  have h1: "\<not> generationCancelledRef (snd ?s)" by (simp add: emptyApp_def)
  have h2: "length (fst ?s) = 3" by (simp add: initialPages_def sampleScript_def)
  have h3: "(1::nat) < 3" by simp
  have h4: "generatePanelImageAt failingServices 1 (description (fst ?s ! 1)) (sfx (fst ?s ! 1))
              (layout (fst ?s ! 1)) (if 1 > (0::nat) then image_js (fst ?s ! (1 - 1)) else Undefined) =
            Inl blockedError"
    by (simp add: failingServices_def sampleServices_def secondImageFails_def)
  note th = panel_failure_isolated [OF h1 h2 h3 h4]
  have nc: "\<not> cancelRequested failingServices (1 + 1)"
    by (simp add: failingServices_def sampleServices_def neverPressed_def)
  have reason: "(case blockedError of
                   GeminiApiError msg userFriendlyMessage \<Rightarrow> userFriendlyMessage
                 | _ \<Rightarrow> ''An unknown error occurred.'') =
    ''The panel generation was blocked, possibly due to a content safety filter. Please try regenerating or modifying the story.''"
    by (simp add: blockedError_def)
  note c1 = th [THEN conjunct1]
  note c2 = th [THEN conjunct2, THEN conjunct1]
  note c4 = th [THEN conjunct2, THEN conjunct2, THEN conjunct2, THEN conjunct1]
  note c5 = th [THEN conjunct2, THEN conjunct2, THEN conjunct2, THEN conjunct2, rule_format]
  have a: "fst (fst (imageIteration failingServices 1 ?s)) ! 0 = initialPages sampleScript ! 0"
    "fst (fst (imageIteration failingServices 1 ?s)) ! 2 = initialPages sampleScript ! 2"
    using c1 by simp_all
  have b: "\<not> snd (imageIteration failingServices 1 ?s)"
    by (rule c2)
  have c: "fst (imageLoop failingServices 3 1 ?s) ! 1 =
           (fst ?s ! 1)\<lparr>isGenerating := Some False, isLettering := Some False,
                       generationFailed := Some True,
                       failureReason :=
                         Some (case blockedError of
                                 GeminiApiError msg userFriendlyMessage \<Rightarrow> userFriendlyMessage
                               | _ \<Rightarrow> ''An unknown error occurred.''),
                       image_js := Null\<rparr>"
    by (rule c4)
  have "(1::nat) + 1 < 3 \<and> \<not> cancelRequested failingServices (1 + 1)"
    using nc by simp
  then have "1 + 1 \<in> set (imageCallsOf (events (snd (imageLoop failingServices 3 1 ?s))))"
    by (rule c5)
  then have d: "2 \<in> set (imageCallsOf (events (snd (imageLoop failingServices 3 1 ?s))))"
    by (simp only: one_add_one)
  show ?thesis
    using a b c d by (simp add: reason)
qed


lemma letteringCallsOf_map: "letteringCallsOf (map AnalyzePanelForLettering xs) = xs"
  by (induction xs) simp_all

lemma imageCallsOf_map: "imageCallsOf (map AnalyzePanelForLettering xs) = []"
  by (induction xs) simp_all

lemma letteredPage_settleOrder: "letteredPage (env\<lparr>settleOrder := order'\<rparr>) = letteredPage env"
  by (rule ext, rule ext) (simp add: letteredPage_def split: nullable.splits)

lemma imageStage_lettering:
  "j < length gp \<Longrightarrow> lettering (fst (imageStage env gp app) ! j) = Null"
  by (simp add: imageStage_start imageLoop_lettering length_initialPages)
     (simp add: initialPages_def)

text \<open>
  C4. The merge of the lettering results does not depend on the order in which the
  lettering calls settle. Whatever order settles every promise, the published panels are
  the panels leaving the image stage with, on each panel that has an image and did not
  fail, the lettering returned by the call made for that very panel (or null when that
  call failed) and isLettering false, every other panel as it was; another settle order
  gives the same state; a lettering call is started exactly for the panels with an image
  that did not fail; and the image stage leaves the lettering of every panel null.
\<close>

theorem lettering_merge_order_independent:
  assumes "currentProject app \<noteq> None"
    and "{0..<length pages} \<subseteq> set (settleOrder env)"
  shows "pagesOf (letteringStage env pages app) = mapIndexed (letteredPage env) pages
       \<and> (\<forall>order'. {0..<length pages} \<subseteq> set order' \<longrightarrow>
             letteringStage (env\<lparr>settleOrder := order'\<rparr>) pages app = letteringStage env pages app)
       \<and> letteringCallsOf (events (letteringStage env pages app)) =
           letteringCallsOf (events app) @
           filter (\<lambda>i. truthyString (image_js (pages ! i)) \<and> \<not> truthyBool (generationFailed (pages ! i)))
             [0..<length pages]
       \<and> (\<forall>j<length gp. lettering (fst (imageStage env gp app) ! j) = Null)"
proof -
  have st: "letteringStage env pages app =
           (updateCurrentProject (mapIndexed (letteredPage env) pages)
              (app\<lparr>events := events app @ letteringCalls pages\<rparr>))\<lparr>generationCancelledRef := False\<rparr>"
    using assms(2) by (rule letteringStage_settled)
  have a: "pagesOf (letteringStage env pages app) = mapIndexed (letteredPage env) pages"
    using assms(1) by (simp add: st pagesOf_flag pagesOf_update)
  have b: "\<forall>order'. {0..<length pages} \<subseteq> set order' \<longrightarrow>
             letteringStage (env\<lparr>settleOrder := order'\<rparr>) pages app = letteringStage env pages app"
  proof (intro allI impI)
    fix order' assume "{0..<length pages} \<subseteq> set order'"
    then have "{0..<length pages} \<subseteq> set (settleOrder (env\<lparr>settleOrder := order'\<rparr>))" by simp
    then show "letteringStage (env\<lparr>settleOrder := order'\<rparr>) pages app = letteringStage env pages app"
      by (simp only: letteringStage_settled st letteredPage_settleOrder)
  qed
  have c: "letteringCallsOf (events (letteringStage env pages app)) =
           letteringCallsOf (events app) @
           filter (\<lambda>i. truthyString (image_js (pages ! i)) \<and> \<not> truthyBool (generationFailed (pages ! i)))
             [0..<length pages]"
    by (simp add: st events_update letteringCallsOf_append letteringCalls_def letteringCallsOf_map)
  have d: "\<forall>j<length gp. lettering (fst (imageStage env gp app) ! j) = Null"
    by (simp add: imageStage_lettering)
  from a b c d show ?thesis by blast
qed

subsection \<open>Exhausted credentials during a panel image call\<close>

lemma exhausted_message: "includes_js ''All API keys have reached their rate limits.'' ''rate limits''"
  by code_simp

lemma placeholder_not_empty: "createPlaceholderSvgDataUrl txt \<noteq> []"
  by (simp add: createPlaceholderSvgDataUrl_def Let_def)

lemma placeholder_is_svg_data_url:
  "startsWith (createPlaceholderSvgDataUrl txt) ''data:image/svg+xml;base64,''"
  by (simp add: createPlaceholderSvgDataUrl_def Let_def)

lemma panelImageLogic_rate_limited:
  assumes "rateLimitedOnPool apiKeys generateContent"
  shows "rateLimitedOnPool apiKeys (panelImageLogic generateContent)"
  unfolding rateLimitedOnPool_def
proof (intro allI impI)
  fix i w assume "i < length apiKeys"
  then obtain e w' where "generateContent (GoogleGenAI (Some (apiKeys ! i))) w = (Inl e, w')"
    and "isRateLimitError e"
    using assms unfolding rateLimitedOnPool_def by blast
  then show "\<exists>e w'. panelImageLogic generateContent (GoogleGenAI (Some (apiKeys ! i))) w = (Inl e, w')
                 \<and> isRateLimitError e"
    by (simp add: panelImageLogic_def)
qed

lemma generatePanelImage_placeholder:
  assumes "currentKeyIndex st < length apiKeys" and "rateLimitedOnPool apiKeys generateContent"
  shows "fst (generatePanelImage apiKeys generateContent st) =
           Inr (createPlaceholderSvgDataUrl ''API Limit Reached'')"
proof -
  obtain r st' where call: "geminiApiCall apiKeys (panelImageLogic generateContent) st = (r, st')"
    by (cases "geminiApiCall apiKeys (panelImageLogic generateContent) st")
  have "fst (geminiApiCall apiKeys (panelImageLogic generateContent) st) = Inl allKeysExhausted"
    using assms(1) panelImageLogic_rate_limited [OF assms(2)] by (rule geminiApiCall_exhausted(1))
  then have r: "r = Inl allKeysExhausted" by (simp add: call)
  show ?thesis
    by (simp add: generatePanelImage_def call r allKeysExhausted_def exhausted_message)
qed

text \<open>
  C10. When the image call made for panel i is generatePanelImage on a pool all of whose
  credentials answer with a rate-limit error, that call returns the placeholder image, not
  an error: an SVG data URL. In a run that is never cancelled the image stage then records panel i as a
  success (the placeholder as image, generationFailed still false, isLettering true), a
  lettering call is started for it, and the panel ends with the placeholder as image and
  the lettering that the call on the placeholder returned.
\<close>

theorem exhausted_quota_recorded_as_success:
  assumes "currentKeyIndex st < length apiKeys"
    and "rateLimitedOnPool apiKeys generateContent"
    and "currentProject app0 = Some project"
    and "generateStory env = Inr gp"
    and "i < length gp"
    and "\<forall>k. k \<le> length gp \<longrightarrow> \<not> cancelRequested env k"
    and "{0..<length gp} \<subseteq> set (settleOrder env)"
    and "\<forall>prev. generatePanelImageAt env i (description (gp ! i)) (sfx (gp ! i)) (layout (gp ! i)) prev =
                 fst (generatePanelImage apiKeys generateContent st)"
  shows "fst (generatePanelImage apiKeys generateContent st) =
           Inr (createPlaceholderSvgDataUrl ''API Limit Reached'')
       \<and> fst (imageStage env gp (scriptAwaited env app0)) ! i =
           (gp ! i)\<lparr>isGenerating := Some False, lettering := Null, generationFailed := Some False,
                    image_js := Value (createPlaceholderSvgDataUrl ''API Limit Reached''),
                    isLettering := Some True\<rparr>
       \<and> i \<in> set (letteringCallsOf (events (handleGenerateStory env app0)))
       \<and> pagesOf (handleGenerateStory env app0) ! i =
           (gp ! i)\<lparr>isGenerating := Some False, generationFailed := Some False,
                    image_js := Value (createPlaceholderSvgDataUrl ''API Limit Reached''),
                    lettering :=
                      (case analyzePanelForLetteringAt env i
                              (createPlaceholderSvgDataUrl ''API Limit Reached'')
                              (dialogue (gp ! i)) (narration (gp ! i)) of
                         Inr letteringData \<Rightarrow> Value letteringData
                       | Inl error \<Rightarrow> Null),
                    isLettering := Some False\<rparr>
       \<and> startsWith (createPlaceholderSvgDataUrl ''API Limit Reached'') ''data:image/svg+xml;base64,''"
proof -
  let ?ph = "createPlaceholderSvgDataUrl ''API Limit Reached''"
  let ?n = "length gp"
  let ?app1 = "scriptAwaited env app0"
  let ?s0 = "(initialPages gp, updateCurrentProject (initialPages gp) ?app1)"
  let ?r = "imageLoop env ?n 0 ?s0"
  have ph: "fst (generatePanelImage apiKeys generateContent st) = Inr ?ph"
    using assms(1,2) by (rule generatePanelImage_placeholder)
  have flag0: "generationCancelledRef (snd ?s0) = cancelRequested env 0"
    by (simp add: flag_update scriptAwaited_facts)
  have len0: "length (fst ?s0) = ?n" by (simp add: length_initialPages)
  have init: "initialPages gp ! i =
              (gp ! i)\<lparr>isGenerating := Some True, lettering := Null, generationFailed := Some False\<rparr>"
    using assms(5) by (simp add: initialPages_def)
  have gen: "\<And>prev. generatePanelImageAt env i (description (fst ?s0 ! i)) (sfx (fst ?s0 ! i))
                 (layout (fst ?s0 ! i)) prev = Inr ?ph"
    using assms(8) ph by (simp add: init)
  have "fst ?r ! i =
           (case generatePanelImageAt env i (description (fst ?s0 ! i)) (sfx (fst ?s0 ! i))
                   (layout (fst ?s0 ! i))
                   (if i > 0 then image_js (fst ?r ! (i - 1)) else Undefined) of
              Inr panelImage \<Rightarrow>
                (fst ?s0 ! i)\<lparr>image_js := Value panelImage, isGenerating := Some False,
                            isLettering := Some True\<rparr>
            | Inl panelError \<Rightarrow>
                (fst ?s0 ! i)\<lparr>isGenerating := Some False, isLettering := Some False,
                            generationFailed := Some True,
                            failureReason := Some (failureReasonOf panelError),
                            image_js := Null\<rparr>)
         \<and> i \<in> set (imageCallsOf (events (snd ?r)))"
    by (rule imageLoop_processed [OF refl flag0 len0]) (use assms(5,6) in auto)
  then have staged: "fst ?r ! i =
           (gp ! i)\<lparr>isGenerating := Some False, lettering := Null, generationFailed := Some False,
                    image_js := Value ?ph, isLettering := Some True\<rparr>"
    by (simp only: gen sum.case) (simp add: init)
  have "generationCancelledRef (snd ?r) = cancelRequested env ?n
       \<and> imageCallsOf (events (snd ?r)) = imageCallsOf (events (snd ?s0)) @ [0..<?n]
       \<and> letteringCallsOf (events (snd ?r)) = letteringCallsOf (events (snd ?s0))"
    by (rule imageLoop_complete [OF refl flag0]) (use assms(6) in auto)
  then have nocancel: "\<not> generationCancelledRef (snd ?r)" using assms(6) by simp
  have lenr: "length (fst ?r) = ?n" by (simp add: imageLoop_length length_initialPages)
  have cover: "{0..<length (fst ?r)} \<subseteq> set (settleOrder env)" using assms(7) lenr by simp
  have proj: "currentProject ?app1 \<noteq> None" using assms(3) by (simp add: scriptAwaited_facts)
  have projr: "currentProject (snd ?r) \<noteq> None"
    using imageStage_project(1) [OF proj, of env gp] by (simp add: imageStage_start)
  have whole: "handleGenerateStory env app0 = letteringStage env (fst ?r) (snd ?r)"
    using handleGenerateStory_script [OF assms(3,4)] nocancel by (simp add: imageStage_start)
  have settled: "letteringStage env (fst ?r) (snd ?r) =
           (updateCurrentProject (mapIndexed (letteredPage env) (fst ?r))
              ((snd ?r)\<lparr>events := events (snd ?r) @ letteringCalls (fst ?r)\<rparr>))\<lparr>generationCancelledRef := False\<rparr>"
    using cover by (rule letteringStage_settled)
  have pages: "pagesOf (handleGenerateStory env app0) = mapIndexed (letteredPage env) (fst ?r)"
    using projr by (simp add: whole settled pagesOf_flag pagesOf_update)
  have final: "pagesOf (handleGenerateStory env app0) ! i = letteredPage env (fst ?r ! i) i"
    using assms(5) lenr by (simp add: pages nth_mapIndexed)
  have lp: "letteredPage env (fst ?r ! i) i =
           (gp ! i)\<lparr>isGenerating := Some False, generationFailed := Some False,
                    image_js := Value ?ph,
                    lettering :=
                      (case analyzePanelForLetteringAt env i ?ph (dialogue (gp ! i)) (narration (gp ! i)) of
                         Inr letteringData \<Rightarrow> Value letteringData
                       | Inl error \<Rightarrow> Null),
                    isLettering := Some False\<rparr>"
    by (simp add: staged letteredPage_def placeholder_not_empty)
  have elig: "truthyString (image_js (fst ?r ! i)) \<and> \<not> truthyBool (generationFailed (fst ?r ! i))"
    by (simp add: staged placeholder_not_empty)
  have calls: "i \<in> set (letteringCallsOf (events (handleGenerateStory env app0)))"
    using elig assms(5) lenr
    by (simp add: whole settled events_update letteringCallsOf_append letteringCalls_def
        letteringCallsOf_map)
  have url: "startsWith ?ph ''data:image/svg+xml;base64,''"
    by (rule placeholder_is_svg_data_url)
  show ?thesis
    using ph staged calls final lp url by (simp add: imageStage_start)
qed


theorem lettering_merge_order_independent_witness:
  "lettering (pagesOf (letteringStage sampleServices stagedPages (appWith stagedPages)) ! 0) =
     Value [sampleElement]
   \<and> lettering (pagesOf (letteringStage sampleServices stagedPages (appWith stagedPages)) ! 1) = Null
   \<and> lettering (pagesOf (letteringStage sampleServices stagedPages (appWith stagedPages)) ! 2) =
       Value [sampleElement, sampleElement, sampleElement]
   \<and> isLettering (pagesOf (letteringStage sampleServices stagedPages (appWith stagedPages)) ! 2) =
       Some False
   \<and> letteringStage (sampleServices\<lparr>settleOrder := [0, 1, 2]\<rparr>) stagedPages (appWith stagedPages) =
       letteringStage sampleServices stagedPages (appWith stagedPages)
   \<and> letteringCallsOf (events (letteringStage sampleServices stagedPages (appWith stagedPages))) =
       [0, 2]"
proof -
  have h1: "currentProject (appWith stagedPages) \<noteq> None" by (simp add: appWith_def)
  have three: "length stagedPages = Suc (Suc (Suc 0))" by (simp add: stagedPages_def)
  have h2: "{0..<length stagedPages} \<subseteq> set (settleOrder sampleServices)"
    by (auto simp: three sampleServices_def)
  note th = lettering_merge_order_independent [OF h1 h2]
  have nth: "stagedPages ! 0 = stagedPanel 1" "stagedPages ! Suc 0 = failedPanel"
    "stagedPages ! Suc (Suc 0) = stagedPanel 3" "stagedPages ! 2 = stagedPanel 3"
    by (simp_all add: stagedPages_def)
  have len3: "length stagedPages = 3" by (simp add: stagedPages_def)
  have lp: "lettering (letteredPage sampleServices (stagedPanel 1) 0) = Value [sampleElement]"
    "lettering (letteredPage sampleServices failedPanel (Suc 0)) = Null"
    "lettering (letteredPage sampleServices (stagedPanel 3) 2) =
       Value [sampleElement, sampleElement, sampleElement]"
    "isLettering (letteredPage sampleServices (stagedPanel 3) 2) = Some False"
    by (simp_all add: letteredPage_def stagedPanel_def failedPanel_def sampleServices_def
        sampleLettering_def)
  have pages: "pagesOf (letteringStage sampleServices stagedPages (appWith stagedPages)) =
               mapIndexed (letteredPage sampleServices) stagedPages"
    using th by blast
  have other: "{0..<length stagedPages} \<subseteq> set [0, 1, 2::nat]" by (auto simp: three)
  have same: "letteringStage (sampleServices\<lparr>settleOrder := [0, 1, 2]\<rparr>) stagedPages (appWith stagedPages) =
       letteringStage sampleServices stagedPages (appWith stagedPages)"
    using th [THEN conjunct2, THEN conjunct1, rule_format, OF other] .
  have elig: "truthyString (image_js (stagedPanel k))" "\<not> truthyBool (generationFailed (stagedPanel k))"
    "\<not> truthyString (image_js failedPanel)" for k
    by (simp_all add: stagedPanel_def failedPanel_def)
  have calls: "letteringCallsOf (events (letteringStage sampleServices stagedPages (appWith stagedPages))) =
       [0, 2]"
    using th [THEN conjunct2, THEN conjunct2, THEN conjunct1]
    by (simp add: three nth elig appWith_def)
  show ?thesis
    using same calls by (simp add: pages nth_mapIndexed len3 nth lp)
qed


lemma rateLimitedOnPool_modelAlwaysThrows:
  "isRateLimitError e \<Longrightarrow> rateLimitedOnPool apiKeys (modelAlwaysThrows e)"
  by (simp add: rateLimitedOnPool_def modelAlwaysThrows_def)

theorem exhausted_quota_recorded_as_success_witness:
  "fst (generatePanelImage samplePool (modelAlwaysThrows quotaError) freshExec) =
     Inr (createPlaceholderSvgDataUrl ''API Limit Reached'')
   \<and> image_js (pagesOf (handleGenerateStory exhaustedServices emptyApp) ! 1) =
       Value (createPlaceholderSvgDataUrl ''API Limit Reached'')
   \<and> generationFailed (pagesOf (handleGenerateStory exhaustedServices emptyApp) ! 1) = Some False
   \<and> lettering (pagesOf (handleGenerateStory exhaustedServices emptyApp) ! 1) =
       Value [sampleElement, sampleElement]
   \<and> 1 \<in> set (letteringCallsOf (events (handleGenerateStory exhaustedServices emptyApp)))"
proof -
  have h1: "currentKeyIndex freshExec < length samplePool"
    by (simp add: freshExec_def samplePool_def)
  have h2: "rateLimitedOnPool samplePool (modelAlwaysThrows quotaError)"
    by (rule rateLimitedOnPool_modelAlwaysThrows) (rule quotaError_classified)
  have h3: "currentProject emptyApp = Some \<lparr>storyPages = []\<rparr>" by (simp add: emptyApp_def)
  have h4: "generateStory exhaustedServices = Inr sampleScript"
    by (simp add: exhaustedServices_def sampleServices_def)
  have h5: "1 < length sampleScript" by (simp add: sampleScript_def)
  have h6: "\<forall>k. k \<le> length sampleScript \<longrightarrow> \<not> cancelRequested exhaustedServices k"
    by (simp add: exhaustedServices_def sampleServices_def neverPressed_def)
  have h7: "{0..<length sampleScript} \<subseteq> set (settleOrder exhaustedServices)"
    by (auto simp: exhaustedServices_def sampleServices_def sampleScript_def)
  have h8: "\<forall>prev. generatePanelImageAt exhaustedServices 1 (description (sampleScript ! 1))
                 (sfx (sampleScript ! 1)) (layout (sampleScript ! 1)) prev =
               fst (generatePanelImage samplePool (modelAlwaysThrows quotaError) freshExec)"
    by (simp add: exhaustedServices_def sampleServices_def secondImageExhausted_def)
  note th = exhausted_quota_recorded_as_success [OF h1 h2 h3 h4 h5 h6 h7 h8]
  note c1 = th [THEN conjunct1]
  note c3 = th [THEN conjunct2, THEN conjunct2, THEN conjunct1]
  note c4 = th [THEN conjunct2, THEN conjunct2, THEN conjunct2]
  have let1: "analyzePanelForLetteringAt exhaustedServices (Suc 0) img d n =
              Inr [sampleElement, sampleElement]" for img d n
    by (simp add: exhaustedServices_def sampleServices_def sampleLettering_def)
  show ?thesis
    using c1 c3 c4 by (simp add: let1)
qed


subsection \<open>Regenerating one panel\<close>

lemma events_startCall: "events (startCall e app) = events app @ [e]"
  by (simp add: startCall_def)

lemma project_startCall: "currentProject (startCall e app) = currentProject app"
  by (simp add: startCall_def)

lemma pagesOf_update_startCall:
  "currentProject app \<noteq> None \<Longrightarrow>
   currentProject (startCall e (updateCurrentProject pages app)) \<noteq> None"
  by (simp add: project_startCall project_update)

text \<open>
  C8. Regenerating panel pageIndex first publishes the panel list in which that panel has
  generationFailed false, no failureReason, image null and lettering null, and only then
  starts the image call. When the image call and then the lettering call succeed, the
  panel ends with the new image, the new lettering (a list, not null), isGenerating and
  isLettering false, and every other panel is as it was.
\<close>

theorem regenerate_clears_then_succeeds:
  assumes "currentProject app = Some project"
    and "pageIndex < length (storyPages project)"
    and "generatePanelImageAt env pageIndex (description (storyPages project ! pageIndex))
           (sfx (storyPages project ! pageIndex)) (layout (storyPages project ! pageIndex))
           (if pageIndex > 0 then image_js (storyPages project ! (pageIndex - 1)) else Undefined) =
         Inr panelImage"
    and "analyzePanelForLetteringAt env pageIndex panelImage
           (dialogue (storyPages project ! pageIndex)) (narration (storyPages project ! pageIndex)) =
         Inr letteringData"
  shows "events (handleRegeneratePanel env pageIndex app) =
           events app @
           [UpdateCurrentProject
              ((storyPages project)[pageIndex :=
                 (storyPages project ! pageIndex)
                   \<lparr>isGenerating := Some True, isLettering := Some False, image_js := Null,
                     lettering := Null, generationFailed := Some False, failureReason := None\<rparr>]),
            GeneratePanelImage pageIndex,
            UpdateCurrentProject
              ((storyPages project)[pageIndex :=
                 (storyPages project ! pageIndex)
                   \<lparr>isGenerating := Some False, isLettering := Some True,
                     image_js := Value panelImage,
                     lettering := Null, generationFailed := Some False, failureReason := None\<rparr>]),
            AnalyzePanelForLettering pageIndex,
            UpdateCurrentProject
              ((storyPages project)[pageIndex :=
                 (storyPages project ! pageIndex)
                   \<lparr>isGenerating := Some False, isLettering := Some False,
                     image_js := Value panelImage,
                     lettering := Value letteringData, generationFailed := Some False,
                     failureReason := None\<rparr>])]
       \<and> pagesOf (handleRegeneratePanel env pageIndex app) =
           (storyPages project)[pageIndex :=
              (storyPages project ! pageIndex)
                \<lparr>isGenerating := Some False, isLettering := Some False,
                  image_js := Value panelImage,
                  lettering := Value letteringData, generationFailed := Some False,
                  failureReason := None\<rparr>]
       \<and> (\<forall>j. j \<noteq> pageIndex \<longrightarrow>
             pagesOf (handleRegeneratePanel env pageIndex app) ! j = storyPages project ! j)"
proof -
  let ?ps = "storyPages project"
  let ?p1 = "?ps[pageIndex := (?ps ! pageIndex)
                   \<lparr>isGenerating := Some True, isLettering := Some False, image_js := Null,
                     lettering := Null, generationFailed := Some False, failureReason := None\<rparr>]"
  let ?p2 = "?ps[pageIndex := (?ps ! pageIndex)
                   \<lparr>isGenerating := Some False, isLettering := Some True,
                     image_js := Value panelImage,
                     lettering := Null, generationFailed := Some False, failureReason := None\<rparr>]"
  let ?p3 = "?ps[pageIndex := (?ps ! pageIndex)
                   \<lparr>isGenerating := Some False, isLettering := Some False,
                     image_js := Value panelImage,
                     lettering := Value letteringData, generationFailed := Some False,
                     failureReason := None\<rparr>]"
  have m1: "mapIndexed (\<lambda>p i.
                       if i = pageIndex
                       then p\<lparr>isGenerating := Some True, isLettering := Some False, image_js := Null,
                              lettering := Null, generationFailed := Some False,
                              failureReason := None\<rparr>
                       else p) ?ps = ?p1"
    using assms(2) by (rule mapIndexed_at)
  have m2: "mapIndexed (\<lambda>p i.
                               if i = pageIndex
                               then p\<lparr>image_js := Value panelImage, isGenerating := Some False,
                                      isLettering := Some True\<rparr>
                               else p) ?p1 = ?p2"
    using assms(2) by (cases "?ps ! pageIndex") (simp add: mapIndexed_at)
  have m3: "mapIndexed (\<lambda>p i.
                                   if i = pageIndex
                                   then p\<lparr>lettering := Value letteringData, isLettering := Some False\<rparr>
                                   else p) ?p2 = ?p3"
    using assms(2) by (cases "?ps ! pageIndex") (simp add: mapIndexed_at)
  have run: "handleRegeneratePanel env pageIndex app =
        updateCurrentProject ?p3
          (startCall (AnalyzePanelForLettering pageIndex)
             (updateCurrentProject ?p2
                (startCall (GeneratePanelImage pageIndex) (updateCurrentProject ?p1 app))))"
    using assms by (simp add: handleRegeneratePanel_def Let_def m1 m2 m3 split del: if_split)
  have pr: "currentProject app \<noteq> None" using assms(1) by simp
  have a: "events (handleRegeneratePanel env pageIndex app) =
           events app @ [UpdateCurrentProject ?p1, GeneratePanelImage pageIndex,
             UpdateCurrentProject ?p2, AnalyzePanelForLettering pageIndex, UpdateCurrentProject ?p3]"
    by (simp add: run events_update events_startCall)
  have b: "pagesOf (handleRegeneratePanel env pageIndex app) = ?p3"
    unfolding run
    by (rule pagesOf_update) (intro pagesOf_update_startCall pr)
  have c: "\<forall>j. j \<noteq> pageIndex \<longrightarrow>
             pagesOf (handleRegeneratePanel env pageIndex app) ! j = ?ps ! j"
    by (simp add: b)
  from a b c show ?thesis by blast
qed

subsection \<open>Editing one panel\<close>

lemma withoutEditedFields_mapIndexed:
  assumes "\<And>p i. withoutEditedFields (f p i) = withoutEditedFields p"
  shows "map withoutEditedFields (mapIndexed f xs) = map withoutEditedFields xs"
  by (rule nth_equalityI) (simp_all add: length_mapIndexed nth_mapIndexed assms)

lemma editFailed_frame:
  assumes "currentProject app \<noteq> None"
  shows "map withoutEditedFields (pagesOf (editFailed pageIndex pages error app)) =
         map withoutEditedFields pages"
proof -
  have "pagesOf (editFailed pageIndex pages error app) =
        mapIndexed (\<lambda>p i.
                if i = pageIndex then p\<lparr>isGenerating := Some False, isLettering := Some False\<rparr>
                else p) pages"
    unfolding editFailed_def Let_def
    by (rule pagesOf_update) (simp add: project_startCall assms)
  then show ?thesis
    by (simp add: withoutEditedFields_mapIndexed withoutEditedFields_def)
qed

text \<open>
  C9. An edit leaves every field of every panel as it was, apart from image, lettering,
  isGenerating and isLettering: with those four blanked out, the panel list after
  handleEditPanel is the panel list before, whatever the calls return. In particular the
  descriptions, the narrations and the dialogues are the same.
\<close>

theorem edit_preserves_script_fields:
  "map withoutEditedFields (pagesOf (handleEditPanel env pageIndex editPrompt app)) =
     map withoutEditedFields (pagesOf app)
   \<and> map description (pagesOf (handleEditPanel env pageIndex editPrompt app)) =
       map description (pagesOf app)
   \<and> map narration (pagesOf (handleEditPanel env pageIndex editPrompt app)) =
       map narration (pagesOf app)
   \<and> map dialogue (pagesOf (handleEditPanel env pageIndex editPrompt app)) =
       map dialogue (pagesOf app)"
proof -
  have frame: "map withoutEditedFields (pagesOf (handleEditPanel env pageIndex editPrompt app)) =
     map withoutEditedFields (pagesOf app)"
  proof (cases "currentProject app")
    case None
    then show ?thesis by (simp add: handleEditPanel_def)
  next
    case (Some project)
    then have pr: "currentProject app \<noteq> None" by simp
    have before: "pagesOf app = storyPages project" using Some by (simp add: pagesOf_def)
    let ?ps = "storyPages project"
    let ?p1 = "mapIndexed (\<lambda>p i.
                 if i = pageIndex then p\<lparr>isGenerating := Some True, lettering := Null\<rparr>
                 else p) ?ps"
    have f1: "map withoutEditedFields ?p1 = map withoutEditedFields ?ps"
      by (simp add: withoutEditedFields_mapIndexed withoutEditedFields_def)
    have pr1: "currentProject (startCall (EditPanelImage pageIndex) (updateCurrentProject ?p1 app)) \<noteq> None"
      using pr by (rule pagesOf_update_startCall)
    show ?thesis
    proof (cases "pageIndex < length ?ps")
      case False
      then show ?thesis using Some by (simp add: handleEditPanel_def)
    next
      case True
      show ?thesis
      proof (cases "image_js (?ps ! pageIndex)")
        case Undefined
        then show ?thesis using Some True by (simp add: handleEditPanel_def Let_def)
      next
        case Null
        then show ?thesis using Some True by (simp add: handleEditPanel_def Let_def)
      next
        case (Value img)
        show ?thesis
        proof (cases "img = []")
          case True
          then show ?thesis using Some \<open>pageIndex < length ?ps\<close> Value
            by (simp add: handleEditPanel_def Let_def)
        next
          case False
          show ?thesis
          proof (cases "editPanelImageAt env pageIndex img editPrompt")
            case (Inl error)
            have "handleEditPanel env pageIndex editPrompt app =
                  editFailed pageIndex ?p1 error
                    (startCall (EditPanelImage pageIndex) (updateCurrentProject ?p1 app))"
              using Some \<open>pageIndex < length ?ps\<close> Value False Inl
              by (simp add: handleEditPanel_def Let_def)
            then show ?thesis
              using editFailed_frame [OF pr1] f1 before by simp
          next
            case (Inr editedImage)
            let ?p2 = "mapIndexed (\<lambda>p i.
                         if i = pageIndex
                         then p\<lparr>image_js := Value editedImage,
                                isGenerating := Some False, isLettering := Some True\<rparr>
                         else p) ?p1"
            have f2: "map withoutEditedFields ?p2 = map withoutEditedFields ?ps"
              using f1 by (simp add: withoutEditedFields_mapIndexed withoutEditedFields_def)
            have pr2: "currentProject (startCall (AnalyzePanelForLettering pageIndex)
                         (updateCurrentProject ?p2
                            (startCall (EditPanelImage pageIndex) (updateCurrentProject ?p1 app)))) \<noteq> None"
              using pr1 by (rule pagesOf_update_startCall)
            show ?thesis
            proof (cases "analyzePanelForLetteringAt env pageIndex editedImage
                            (dialogue (?ps ! pageIndex)) (narration (?ps ! pageIndex))")
              case (Inl error)
              have "handleEditPanel env pageIndex editPrompt app =
                    editFailed pageIndex ?p2 error
                      (startCall (AnalyzePanelForLettering pageIndex)
                         (updateCurrentProject ?p2
                            (startCall (EditPanelImage pageIndex) (updateCurrentProject ?p1 app))))"
                using Some \<open>pageIndex < length ?ps\<close> Value False Inr Inl
                by (simp add: handleEditPanel_def Let_def)
              then show ?thesis
                using editFailed_frame [OF pr2] f2 before by simp
            next
              case (Inr letteringData)
              let ?p3 = "mapIndexed (\<lambda>p i.
                           if i = pageIndex
                           then p\<lparr>lettering := Value letteringData, isLettering := Some False\<rparr>
                           else p) ?p2"
              have f3: "map withoutEditedFields ?p3 = map withoutEditedFields ?ps"
                using f2 by (simp add: withoutEditedFields_mapIndexed withoutEditedFields_def)
              have "handleEditPanel env pageIndex editPrompt app =
                    updateCurrentProject ?p3
                      (startCall (AnalyzePanelForLettering pageIndex)
                         (updateCurrentProject ?p2
                            (startCall (EditPanelImage pageIndex) (updateCurrentProject ?p1 app))))"
                using Some \<open>pageIndex < length ?ps\<close> Value False
                  \<open>editPanelImageAt env pageIndex img editPrompt = Inr editedImage\<close> Inr
                by (simp add: handleEditPanel_def Let_def)
              then show ?thesis
                using pagesOf_update [OF pr2] f3 before by simp
            qed
          qed
        qed
      qed
    qed
  qed
  have d: "description = description \<circ> withoutEditedFields"
    and n: "narration = narration \<circ> withoutEditedFields"
    and g: "dialogue = dialogue \<circ> withoutEditedFields"
    by (rule ext, simp add: withoutEditedFields_def)+
  have "map (description \<circ> withoutEditedFields) (pagesOf (handleEditPanel env pageIndex editPrompt app)) =
        map (description \<circ> withoutEditedFields) (pagesOf app)"
    "map (narration \<circ> withoutEditedFields) (pagesOf (handleEditPanel env pageIndex editPrompt app)) =
        map (narration \<circ> withoutEditedFields) (pagesOf app)"
    "map (dialogue \<circ> withoutEditedFields) (pagesOf (handleEditPanel env pageIndex editPrompt app)) =
        map (dialogue \<circ> withoutEditedFields) (pagesOf app)"
    using arg_cong [OF frame, of "map description"] arg_cong [OF frame, of "map narration"]
      arg_cong [OF frame, of "map dialogue"]
    by simp_all
  then show ?thesis using frame d n g by simp
qed

text \<open>What a failed edit call leaves: the lettering of the panel is null.\<close>

lemma handleEditPanel_edit_fails:
  assumes "currentProject app = Some project"
    and "pageIndex < length (storyPages project)"
    and "image_js (storyPages project ! pageIndex) = Value img" and "img \<noteq> []"
    and "editPanelImageAt env pageIndex img editPrompt = Inl error"
  shows "pagesOf (handleEditPanel env pageIndex editPrompt app) =
           (storyPages project)[pageIndex :=
              (storyPages project ! pageIndex)
                \<lparr>isGenerating := Some False, lettering := Null, isLettering := Some False\<rparr>]"
proof -
  let ?ps = "storyPages project"
  let ?p1 = "?ps[pageIndex := (?ps ! pageIndex)\<lparr>isGenerating := Some True, lettering := Null\<rparr>]"
  have m1: "mapIndexed (\<lambda>p i.
                 if i = pageIndex then p\<lparr>isGenerating := Some True, lettering := Null\<rparr>
                 else p) ?ps = ?p1"
    using assms(2) by (rule mapIndexed_at)
  have pr1: "currentProject (startCall (EditPanelImage pageIndex) (updateCurrentProject ?p1 app)) \<noteq> None"
    by (rule pagesOf_update_startCall) (simp add: assms(1))
  have run: "handleEditPanel env pageIndex editPrompt app =
             editFailed pageIndex ?p1 error
               (startCall (EditPanelImage pageIndex) (updateCurrentProject ?p1 app))"
    using assms by (simp add: handleEditPanel_def Let_def m1)
  have "pagesOf (handleEditPanel env pageIndex editPrompt app) =
        mapIndexed (\<lambda>p i.
                if i = pageIndex then p\<lparr>isGenerating := Some False, isLettering := Some False\<rparr>
                else p) ?p1"
    unfolding run editFailed_def Let_def
    by (rule pagesOf_update) (use pr1 in \<open>simp add: project_startCall\<close>)
  then show ?thesis using assms(2) by (cases "?ps ! pageIndex") (simp add: mapIndexed_at)
qed


theorem regenerate_clears_then_succeeds_witness:
  "generationFailed failedPanel = Some True
   \<and> failureReason failedPanel = Some ''An unknown error occurred.''
   \<and> hd (events (handleRegeneratePanel sampleServices 0 (appWith [failedPanel]))) =
       UpdateCurrentProject
         [failedPanel\<lparr>isGenerating := Some True, isLettering := Some False, image_js := Null,
                       lettering := Null, generationFailed := Some False, failureReason := None\<rparr>]
   \<and> pagesOf (handleRegeneratePanel sampleServices 0 (appWith [failedPanel])) =
       [failedPanel\<lparr>isGenerating := Some False, isLettering := Some False,
                     image_js := Value ''data:image/png;base64,AAAA'',
                     lettering := Value [sampleElement], generationFailed := Some False,
                     failureReason := None\<rparr>]"
proof -
  have h1: "currentProject (appWith [failedPanel]) = Some \<lparr>storyPages = [failedPanel]\<rparr>"
    by (simp add: appWith_def)
  have h2: "0 < length (storyPages \<lparr>storyPages = [failedPanel]\<rparr>)" by simp
  have h3: "generatePanelImageAt sampleServices 0
              (description (storyPages \<lparr>storyPages = [failedPanel]\<rparr> ! 0))
              (sfx (storyPages \<lparr>storyPages = [failedPanel]\<rparr> ! 0))
              (layout (storyPages \<lparr>storyPages = [failedPanel]\<rparr> ! 0))
              (if 0 > (0::nat) then image_js (storyPages \<lparr>storyPages = [failedPanel]\<rparr> ! (0 - 1))
               else Undefined) = Inr ''data:image/png;base64,AAAA''"
    by (simp add: sampleServices_def sampleImage_def)
  have h4: "analyzePanelForLetteringAt sampleServices 0 ''data:image/png;base64,AAAA''
              (dialogue (storyPages \<lparr>storyPages = [failedPanel]\<rparr> ! 0))
              (narration (storyPages \<lparr>storyPages = [failedPanel]\<rparr> ! 0)) = Inr [sampleElement]"
    by (simp add: sampleServices_def sampleLettering_def)
  note th = regenerate_clears_then_succeeds [OF h1 h2 h3 h4]
  have ev: "events (appWith [failedPanel]) = []" by (simp add: appWith_def)
  have f: "generationFailed failedPanel = Some True"
    "failureReason failedPanel = Some ''An unknown error occurred.''"
    by (simp_all add: failedPanel_def)
  show ?thesis
    using th f by (simp add: ev)
qed


lemma alertsOf_append: "alertsOf (xs @ ys) = alertsOf xs @ alertsOf ys"
  by (induction xs rule: alertsOf.induct) simp_all

lemma handleEditPanel_edit_fails_alert:
  assumes "currentProject app = Some project"
    and "pageIndex < length (storyPages project)"
    and "image_js (storyPages project ! pageIndex) = Value img" and "img \<noteq> []"
    and "editPanelImageAt env pageIndex img editPrompt = Inl (GeminiApiError msg userFriendlyMessage)"
  shows "alertsOf (events (handleEditPanel env pageIndex editPrompt app)) =
           alertsOf (events app) @ [''Panel Edit Failed: '' @ userFriendlyMessage]"
  using assms
  by (simp add: handleEditPanel_def Let_def editFailed_def events_update events_startCall
      alertsOf_append)

text \<open>
  The sibling path: when the image call of a regeneration throws, the panel is rebuilt
  from the project as it was before the regeneration, so its image and lettering are kept.
\<close>

lemma handleRegeneratePanel_image_fails:
  assumes "currentProject app = Some project"
    and "pageIndex < length (storyPages project)"
    and "generatePanelImageAt env pageIndex (description (storyPages project ! pageIndex))
           (sfx (storyPages project ! pageIndex)) (layout (storyPages project ! pageIndex))
           (if pageIndex > 0 then image_js (storyPages project ! (pageIndex - 1)) else Undefined) =
         Inl error"
  shows "image_js (pagesOf (handleRegeneratePanel env pageIndex app) ! pageIndex) =
           image_js (storyPages project ! pageIndex)
       \<and> lettering (pagesOf (handleRegeneratePanel env pageIndex app) ! pageIndex) =
           lettering (storyPages project ! pageIndex)"
proof -
  let ?ps = "storyPages project"
  let ?p1 = "mapIndexed (\<lambda>p i.
                       if i = pageIndex
                       then p\<lparr>isGenerating := Some True, isLettering := Some False, image_js := Null,
                              lettering := Null, generationFailed := Some False,
                              failureReason := None\<rparr>
                       else p) ?ps"
  have run: "handleRegeneratePanel env pageIndex app =
             regenerateFailed project pageIndex error
               (startCall (GeneratePanelImage pageIndex) (updateCurrentProject ?p1 app))"
    using assms by (simp add: handleRegeneratePanel_def Let_def split del: if_split)
  have pr: "currentProject (startCall (GeneratePanelImage pageIndex) (updateCurrentProject ?p1 app)) \<noteq> None"
    by (rule pagesOf_update_startCall) (simp add: assms(1))
  have "pagesOf (handleRegeneratePanel env pageIndex app) =
        mapIndexed (\<lambda>p i.
                if i = pageIndex
                then p\<lparr>isGenerating := Some False, isLettering := Some False,
                       generationFailed := Some True,
                       failureReason := Some (case error of
                           GeminiApiError msg userFriendlyMessage \<Rightarrow> userFriendlyMessage
                         | _ \<Rightarrow> ''An unknown error occurred during regeneration.'')\<rparr>
                else p) ?ps"
    unfolding run regenerateFailed_def Let_def using pr by (rule pagesOf_update)
  then show ?thesis using assms(2) by (simp add: nth_mapIndexed)
qed

text \<open>
  C7 on a concrete panel. The panel has an image and one lettering element; the edit call
  throws. The error is shown in an alert and the image is the one the panel had, but the
  lettering of the panel is null afterwards: handleEditPanel has set it to null before the
  call and the failure path does not put it back.
\<close>

theorem failed_edit_loses_lettering:
  "lettering (pagesOf (appWith [letteredPanel]) ! 0) = Value [sampleElement]
   \<and> editPanelImageAt sampleServices 0 ''data:image/png;base64,AAAA'' ''Make it night'' =
       Inl editBlockedError
   \<and> alertsOf (events (handleEditPanel sampleServices 0 ''Make it night'' (appWith [letteredPanel]))) =
       [''Panel Edit Failed: The image edit was blocked, possibly due to a content safety filter. Please try a different edit prompt.'']
   \<and> image_js (pagesOf (handleEditPanel sampleServices 0 ''Make it night'' (appWith [letteredPanel])) ! 0) =
       Value ''data:image/png;base64,AAAA''
   \<and> lettering (pagesOf (handleEditPanel sampleServices 0 ''Make it night'' (appWith [letteredPanel])) ! 0) =
       Null"
proof -
  have h1: "currentProject (appWith [letteredPanel]) = Some \<lparr>storyPages = [letteredPanel]\<rparr>"
    by (simp add: appWith_def)
  have h2: "0 < length (storyPages \<lparr>storyPages = [letteredPanel]\<rparr>)" by simp
  have h3: "image_js (storyPages \<lparr>storyPages = [letteredPanel]\<rparr> ! 0) =
            Value ''data:image/png;base64,AAAA''"
    by (simp add: letteredPanel_def)
  have h4: "''data:image/png;base64,AAAA'' \<noteq> []" by simp
  have h5: "editPanelImageAt sampleServices 0 ''data:image/png;base64,AAAA'' ''Make it night'' =
            Inl editBlockedError"
    by (simp add: sampleServices_def editIsBlocked_def)
  have before: "lettering (pagesOf (appWith [letteredPanel]) ! 0) = Value [sampleElement]"
    by (simp add: pagesOf_def appWith_def letteredPanel_def)
  have after: "pagesOf (handleEditPanel sampleServices 0 ''Make it night'' (appWith [letteredPanel])) =
           (storyPages \<lparr>storyPages = [letteredPanel]\<rparr>)[0 :=
              (storyPages \<lparr>storyPages = [letteredPanel]\<rparr> ! 0)
                \<lparr>isGenerating := Some False, lettering := Null, isLettering := Some False\<rparr>]"
    using h1 h2 h3 h4 h5 by (rule handleEditPanel_edit_fails)
  have alert: "alertsOf (events (handleEditPanel sampleServices 0 ''Make it night'' (appWith [letteredPanel]))) =
       alertsOf (events (appWith [letteredPanel])) @
       [''Panel Edit Failed: '' @ ''The image edit was blocked, possibly due to a content safety filter. Please try a different edit prompt.'']"
    using h1 h2 h3 h4 h5 [unfolded editBlockedError_def]
    by (rule handleEditPanel_edit_fails_alert)
  have ev: "events (appWith [letteredPanel]) = []" by (simp add: appWith_def)
  have img: "image_js letteredPanel = Value ''data:image/png;base64,AAAA''"
    by (simp add: letteredPanel_def)
  show ?thesis
    using before h5 alert after by (simp add: ev img)
qed


subsection \<open>Checks of the string functions and of the images that are returned\<close>

lemma startsWith_iff: "startsWith s t \<longleftrightarrow> (\<exists>ys. s = t @ ys)"
  by (induction s t rule: startsWith.induct) auto

lemma includes_js_iff: "includes_js s t \<longleftrightarrow> (\<exists>xs ys. s = xs @ t @ ys)"
proof (induction s)
  case Nil
  show ?case by simp
next
  case (Cons a s)
  show ?case
  proof
    assume "includes_js (a # s) t"
    then consider "startsWith (a # s) t" | "includes_js s t" by auto
    then show "\<exists>xs ys. a # s = xs @ t @ ys"
    proof cases
      case 1
      then obtain ys where "a # s = t @ ys" using startsWith_iff by blast
      then have "a # s = [] @ t @ ys" by simp
      then show ?thesis by blast
    next
      case 2
      then obtain xs ys where "s = xs @ t @ ys" using Cons.IH by blast
      then have "a # s = (a # xs) @ t @ ys" by simp
      then show ?thesis by blast
    qed
  next
    assume "\<exists>xs ys. a # s = xs @ t @ ys"
    then obtain xs ys where eq: "a # s = xs @ t @ ys" by blast
    show "includes_js (a # s) t"
    proof (cases xs)
      case Nil
      then have "startsWith (a # s) t" using eq startsWith_iff by auto
      then show ?thesis by simp
    next
      case (Cons b xs')
      then have "s = xs' @ t @ ys" using eq by simp
      then have "includes_js s t" using Cons.IH by blast
      then show ?thesis by simp
    qed
  qed
qed

lemma btoa_example: "btoa ''Man'' = ''TWFu'' \<and> btoa ''Ma'' = ''TWE='' \<and> btoa ''M'' = ''TQ==''"
  by code_simp

lemma attemptLoop_result:
  "fst (attemptLoop apiKeys apiLogic n lastError st) = Inr r \<Longrightarrow>
   \<exists>ai w. fst (apiLogic ai w) = Inr r"
proof (induction n arbitrary: lastError st)
  case 0
  then show ?case by (simp split: if_splits)
next
  case (Suc n)
  obtain kr c where nk: "getNextKey apiKeys (currentKeyIndex st) = (kr, c)"
    by (cases "getNextKey apiKeys (currentKeyIndex st)")
  obtain outcome w where op: "apiLogic (GoogleGenAI (key kr)) (world st) = (outcome, w)"
    by (cases "apiLogic (GoogleGenAI (key kr)) (world st)")
  show ?case
  proof (cases outcome)
    case (Inr result)
    then have "result = r" using Suc.prems by (simp add: nk op)
    then have "fst (apiLogic (GoogleGenAI (key kr)) (world st)) = Inr r" using op Inr by simp
    then show ?thesis by blast
  next
    case (Inl error)
    show ?thesis
    proof (cases "isRateLimitError error")
      case True
      then show ?thesis using Suc.prems Suc.IH Inl by (simp add: nk op)
    next
      case False
      then show ?thesis using Suc.prems Inl by (simp add: nk op)
    qed
  qed
qed

lemma panelImageLogic_result:
  "fst (panelImageLogic generateContent ai w) = Inr img \<Longrightarrow> img \<noteq> []"
  by (auto simp: panelImageLogic_def split: prod.splits sum.splits option.splits)

text \<open>Every image that generatePanelImage returns is a non-empty string.\<close>

lemma generatePanelImage_not_empty:
  assumes "fst (generatePanelImage apiKeys generateContent st) = Inr img"
  shows "img \<noteq> []"
proof -
  obtain r st' where call: "geminiApiCall apiKeys (panelImageLogic generateContent) st = (r, st')"
    by (cases "geminiApiCall apiKeys (panelImageLogic generateContent) st")
  show ?thesis
  proof (cases r)
    case (Inr panelImage)
    then have "img = panelImage" using assms by (simp add: generatePanelImage_def call)
    moreover have "fst (attemptLoop apiKeys (panelImageLogic generateContent) (getTotalKeys apiKeys)
                 (JsError ''Error'' ''No API keys are available or all have failed.'') st) =
               Inr panelImage"
      using call Inr by (simp add: geminiApiCall_def)
    note found = attemptLoop_result [OF this]
    then obtain ai w where "fst (panelImageLogic generateContent ai w) = Inr panelImage"
      by blast
    then have "panelImage \<noteq> []"
      by (rule panelImageLogic_result)
    ultimately show ?thesis by simp
  next
    case (Inl error)
    then have "img = createPlaceholderSvgDataUrl ''API Limit Reached''"
      using assms
      by (cases error) (simp_all add: generatePanelImage_def call split: if_splits)
    then show ?thesis by (simp add: placeholder_not_empty)
  qed
qed

end
